theory Spec2Isabelle
  imports Complex_Main
begin

section \<open>Data model of the application store (app-store.ts)\<close>

text \<open>
  A repository is identified by its persisted numeric id; the per-repository state
  cache is keyed by that identity.
\<close>

type_synonym Repository = nat

text \<open>What a throwing function throws: \<^verbatim>\<open>new Error(message)\<close>.\<close>

datatype Error = Error string

record CommittedFileChange =
  file_id :: string
  file_path :: string

datatype DiffType = Text | Image | Binary | Unrenderable | Sketch

record IDiff =
  kind :: DiffType
  content :: string
  previews :: "string option"

text \<open>
  The commit-selection slice. \<open>loadingDiff\<close> holds the number minted by
  \<^verbatim>\<open>Math.random()\<close> for the diff load in flight, or null.
\<close>

record ICommitSelection =
  sha :: "string option"
  selected_file :: "CommittedFileChange option"
  changedFiles :: "CommittedFileChange list"
  diff :: "IDiff option"
  loadingDiff :: "rat option"

record Branch =
  name :: string
  upstream :: "string option"
  tip_sha :: string

datatype Tip = Unknown | Unborn | Detached string | Valid Branch

record IAheadBehind =
  ahead :: nat
  behind :: nat

record IBranchesState =
  tip :: Tip
  defaultBranch :: "Branch option"
  allBranches :: "Branch list"
  recentBranches :: "Branch list"

record IInferredComparisonBranch =
  inferred_branch :: "Branch option"
  inferred_aheadBehind :: "IAheadBehind option"

datatype ComparisonMode = Ahead | Behind

datatype FormState =
  History
  | Compare Branch ComparisonMode IAheadBehind

datatype MergeResult = Loading | Invalid | Clean | Conflicts nat

record ICompareState =
  formState :: FormState
  filterText :: string
  commitSHAs :: "string list"
  mergeStatus :: "MergeResult option"
  cmp_allBranches :: "Branch list"
  cmp_recentBranches :: "Branch list"
  cmp_defaultBranch :: "Branch option"
  inferredComparisonBranch :: IInferredComparisonBranch
  isDivergingBranchBannerVisible :: bool
  aheadBehindCache :: "(string \<times> string \<Rightarrow> IAheadBehind option) option"

record Progress =
  progress_kind :: string
  title :: string
  description :: "string option"
  progress_value :: rat

record IRepositoryState =
  commitSelection :: ICommitSelection
  compareState :: ICompareState
  branchesState :: IBranchesState
  remote :: "string option"
  isCommitting :: bool
  isPushPullFetchInProgress :: bool
  pushPullFetchProgress :: "Progress option"

text \<open>
  The popups and foldouts that the modelled methods tell apart; the others carry
  their name.
\<close>

datatype Popup = PublishRepository Repository | CloneRepository | OtherPopup string

datatype FoldoutType = AppMenu | OtherFoldout string

text \<open>
  The fields of the \<^verbatim>\<open>AppStore\<close> object that the modelled methods read or write.
  \<open>emitted\<close> counts the calls of \<^verbatim>\<open>emitUpdateNow\<close>, that is the snapshots handed to
  the subscribers.
\<close>

record AppStore =
  repositoryStateCache :: "Repository \<Rightarrow> IRepositoryState"
  selectedRepository :: "Repository option"
  windowHidden :: bool
  emitQueued :: bool
  emitted :: nat
  currentMergeTreePromise :: "nat option"
  currentPopup :: "Popup option"
  currentFoldout :: "FoldoutType option"
  resolveOpenInKactus :: bool

subsection \<open>The scoped updates of RepositoryStateCache\<close>

definition cache_get :: "AppStore \<Rightarrow> Repository \<Rightarrow> IRepositoryState" where
  "cache_get s r = repositoryStateCache s r"

definition cache_update ::
  "Repository \<Rightarrow> (IRepositoryState \<Rightarrow> IRepositoryState) \<Rightarrow> AppStore \<Rightarrow> AppStore" where
  "cache_update r f s =
     s\<lparr>repositoryStateCache := (repositoryStateCache s)(r := f (repositoryStateCache s r))\<rparr>"

definition updateCommitSelection ::
  "Repository \<Rightarrow> (ICommitSelection \<Rightarrow> ICommitSelection) \<Rightarrow> AppStore \<Rightarrow> AppStore" where
  "updateCommitSelection r f =
     cache_update r (\<lambda>st. st\<lparr>commitSelection := f (commitSelection st)\<rparr>)"

definition updateCompareState ::
  "Repository \<Rightarrow> (ICompareState \<Rightarrow> ICompareState) \<Rightarrow> AppStore \<Rightarrow> AppStore" where
  "updateCompareState r f =
     cache_update r (\<lambda>st. st\<lparr>compareState := f (compareState st)\<rparr>)"

subsection \<open>emitUpdate\<close>

definition emitUpdateNow :: "AppStore \<Rightarrow> AppStore" where
  "emitUpdateNow s = s\<lparr>emitQueued := False, emitted := Suc (emitted s)\<rparr>"

text \<open>
  With a visible window the update is queued for the next animation frame (whose
  callback is \<open>emitUpdateNow\<close>); a second request while one is queued does nothing.
\<close>

definition emitUpdate :: "AppStore \<Rightarrow> AppStore" where
  "emitUpdate s =
     (if windowHidden s then emitUpdateNow s
      else if emitQueued s then s
      else s\<lparr>emitQueued := True\<rparr>)"

subsection \<open>Popups\<close>

text \<open>
  \<open>resolveOpenInKactus\<close> says whether a resolver of an open-in-Kactus flow is stored;
  \<^verbatim>\<open>_completeOpenInKactus\<close> takes it out of the store before its first await.
\<close>

definition closePopup :: "AppStore \<Rightarrow> AppStore" where
  "closePopup s =
     (case currentPopup s of
        None \<Rightarrow> s
      | Some popup \<Rightarrow>
          emitUpdate
            ((if popup = CloneRepository then s\<lparr>resolveOpenInKactus := False\<rparr> else s)
               \<lparr>currentPopup := None\<rparr>))"

definition closeFoldout :: "FoldoutType \<Rightarrow> AppStore \<Rightarrow> AppStore" where
  "closeFoldout foldout s =
     (case currentFoldout s of
        None \<Rightarrow> s
      | Some current \<Rightarrow>
          if current \<noteq> foldout then s else emitUpdate (s\<lparr>currentFoldout := None\<rparr>))"

definition showPopup :: "Popup \<Rightarrow> AppStore \<Rightarrow> AppStore" where
  "showPopup popup s =
     emitUpdate ((closeFoldout AppMenu (closePopup s))\<lparr>currentPopup := Some popup\<rparr>)"

section \<open>Commit selection\<close>

definition changeCommitSelection :: "Repository \<Rightarrow> string \<Rightarrow> AppStore \<Rightarrow> AppStore" where
  "changeCommitSelection r new_sha s =
     (if sha (commitSelection (cache_get s r)) = Some new_sha then s
      else emitUpdate
        (updateCommitSelection r
           (\<lambda>c. c\<lparr>sha := Some new_sha, selected_file := None, changedFiles := [],
                   diff := None, loadingDiff := None\<rparr>) s))"

text \<open>
  \<^verbatim>\<open>clearSelectedCommit\<close>: every field of the slice goes back to its empty value.
\<close>

definition clearSelectedCommit :: "Repository \<Rightarrow> AppStore \<Rightarrow> AppStore" where
  "clearSelectedCommit r s =
     updateCommitSelection r
       (\<lambda>c. c\<lparr>sha := None, selected_file := None, changedFiles := [],
               diff := None, loadingDiff := None\<rparr>) s"

section \<open>File selection and the diff load\<close>

text \<open>
  \<^verbatim>\<open>_changeFileSelection\<close> is an async function with one suspension point, the await of
  \<^verbatim>\<open>getCommitDiff\<close>. It is modelled as the part that runs before the await and the part
  that runs after it, on whatever store the intervening events have left. \<open>DiffLoad\<close>
  holds the locals that survive the await: the sha read from \<^verbatim>\<open>stateBeforeLoad\<close>, the file
  argument and the minted \<^verbatim>\<open>diffId\<close>.
\<close>

record DiffLoad =
  load_sha :: string
  load_file :: CommittedFileChange
  load_diffId :: rat

text \<open>
  The first argument is the build constant \<^verbatim>\<open>__DEV__\<close>, the fourth the value returned by
  \<^verbatim>\<open>Math.random()\<close>. \<^verbatim>\<open>!sha\<close> holds of null and of the empty string. The result is the
  exception thrown, or the load that is now awaited (none after the early return).
\<close>

definition changeFileSelection_start ::
  "bool \<Rightarrow> Repository \<Rightarrow> CommittedFileChange \<Rightarrow> rat \<Rightarrow> AppStore
     \<Rightarrow> (Error + DiffLoad option) \<times> AppStore" where
  "changeFileSelection_start dev r f diffId s =
     (let s1 = emitUpdate
                 (updateCommitSelection r
                    (\<lambda>c. c\<lparr>selected_file := Some f, diff := None, loadingDiff := Some diffId\<rparr>) s);
          stateBeforeLoad = cache_get s1 r;
          sha_opt = sha (commitSelection stateBeforeLoad)
      in case sha_opt of
           Some (c # cs) \<Rightarrow>
             (Inr (Some \<lparr>load_sha = c # cs, load_file = f, load_diffId = diffId\<rparr>), s1)
         | _ \<Rightarrow>
             (let s2 = emitUpdate
                         (updateCommitSelection r (\<lambda>c. c\<lparr>loadingDiff := None\<rparr>) s1)
              in if dev
                 then (Inl (Error
                   ''No currently selected sha yet we've been asked to switch file selection''), s2)
                 else (Inr None, s2)))"

text \<open>
  The part after the await, given the diff that \<^verbatim>\<open>getCommitDiff\<close> resolved with. (When
  \<^verbatim>\<open>getCommitDiff\<close> rejects, nothing after the await runs.)
\<close>

definition changeFileSelection_finish ::
  "Repository \<Rightarrow> DiffLoad \<Rightarrow> IDiff \<Rightarrow> AppStore \<Rightarrow> AppStore" where
  "changeFileSelection_finish r ld d s =
     (let stateAfterLoad = cache_get s r
      in if sha (commitSelection stateAfterLoad) \<noteq> Some (load_sha ld) then s
         else case selected_file (commitSelection stateAfterLoad) of
           None \<Rightarrow> s
         | Some f' \<Rightarrow>
             if file_id f' \<noteq> file_id (load_file ld) then s
             else emitUpdate
               (updateCommitSelection r
                  (\<lambda>st. st\<lparr>diff := Some d,
                            loadingDiff := (if kind d \<noteq> Sketch then None else loadingDiff st)\<rparr>) s))"

text \<open>
  One invocation of the callback built by \<^verbatim>\<open>updateDiffWithSketchPreview\<close> with
  \<^verbatim>\<open>fromFileSelection = true\<close>. The callback either gives up, or finds no diff in the slice
  yet and schedules itself again after 100 ms, or merges the previews into the loaded
  diff. \<^verbatim>\<open>!diffId\<close> holds of the number 0.
\<close>

datatype PreviewOutcome = GaveUp | ScheduledAgain | Merged

definition updateDiffWithSketchPreview ::
  "Repository \<Rightarrow> rat \<Rightarrow> Error option \<Rightarrow> string option \<Rightarrow> AppStore
     \<Rightarrow> PreviewOutcome \<times> AppStore" where
  "updateDiffWithSketchPreview r diffId err pv s =
     (case err of
        Some e \<Rightarrow> (GaveUp, s)
      | None \<Rightarrow>
         (case pv of
            None \<Rightarrow> (GaveUp, s)
          | Some p \<Rightarrow>
             (let stateBeforeUpdate = cache_get s r
              in if diffId = 0 \<or> loadingDiff (commitSelection stateBeforeUpdate) \<noteq> Some diffId
                 then (GaveUp, s)
                 else if diff (commitSelection stateBeforeUpdate) = None
                 then (ScheduledAgain, s)
                 else (Merged, emitUpdate
                   (updateCommitSelection r
                      (\<lambda>st. case diff st of
                          None \<Rightarrow> st\<lparr>diff := None, loadingDiff := None\<rparr>
                        | Some d0 \<Rightarrow>
                            if kind d0 \<noteq> Sketch
                            then st\<lparr>diff := None, loadingDiff := None\<rparr>
                            else st\<lparr>diff := Some (d0\<lparr>previews := Some p\<rparr>),
                                    loadingDiff := None\<rparr>) s)))))"

section \<open>The diverging-branch banner\<close>


definition setDivergingBranchBannerVisibility ::
  "Repository \<Rightarrow> bool \<Rightarrow> AppStore \<Rightarrow> AppStore" where
  "setDivergingBranchBannerVisibility r visible s =
     (if isDivergingBranchBannerVisible (compareState (cache_get s r)) \<noteq> visible
      then emitUpdate
             (updateCompareState r (\<lambda>c. c\<lparr>isDivergingBranchBannerVisible := visible\<rparr>) s)
      else s)"


section \<open>The background-fetch policy\<close>

text \<open>Dates are their \<^verbatim>\<open>getTime()\<close> values, milliseconds as integers.\<close>

definition BackgroundFetchMinimumInterval :: int where
  "BackgroundFetchMinimumInterval = 30 * 60 * 1000"

text \<open>
  The arguments are the value of \<^verbatim>\<open>new Date()\<close>, the \<^verbatim>\<open>lastFetched\<close> of the repository's
  git store, and \<^verbatim>\<open>lastPush\<close>. True means: fetch.
\<close>

definition shouldBackgroundFetch :: "int \<Rightarrow> int option \<Rightarrow> int option \<Rightarrow> bool" where
  "shouldBackgroundFetch now lastFetched lastPush =
     (case lastFetched of
        None \<Rightarrow> True
      | Some fetched \<Rightarrow>
         (let timeSinceFetch = now - fetched
          in if timeSinceFetch < BackgroundFetchMinimumInterval then False
             else case lastPush of
                    None \<Rightarrow> True
                  | Some pushed \<Rightarrow> if fetched < pushed then True else False))"

text \<open>
  The policy that \<^verbatim>\<open>startBackgroundFetching\<close> hands to the background fetcher: the last
  push is always null there.
\<close>

definition backgroundFetcherPolicy :: "int \<Rightarrow> int option \<Rightarrow> bool" where
  "backgroundFetcherPolicy now lastFetched = shouldBackgroundFetch now lastFetched None"

section \<open>Fast-forwarding branches\<close>

definition FastForwardBranchesThreshold :: nat where
  "FastForwardBranchesThreshold = 20"

text \<open>The arguments of one call of the command layer's \<^verbatim>\<open>updateRef\<close>.\<close>

record UpdateRefCall =
  ref :: string
  oldValue :: string
  newValue :: "string option"
  reason :: string

text \<open>
  The functions that \<^verbatim>\<open>fastForwardBranches\<close> imports from the branch model and the
  command layer are parameters of the model. \<open>getBranchAheadBehind\<close> gives the error
  its promise rejects with, or the counts or null it resolves with; \<open>updateRef\<close> gives
  the error its promise rejects with, if it does.
\<close>

record GitLayer =
  eligibleForFastForward :: "Branch \<Rightarrow> string option \<Rightarrow> bool"
  getBranchAheadBehind :: "Branch \<Rightarrow> Error + IAheadBehind option"
  formatAsLocalRef :: "string \<Rightarrow> string"
  updateRef :: "UpdateRefCall \<Rightarrow> Error option"

text \<open>
  The start of \<^verbatim>\<open>fastForwardBranches\<close>: the name of the current branch, the branches
  that pass the filter, and the list that the loop runs over, which is the value of
  the variable \<^verbatim>\<open>eligibleBranches\<close> when the loop starts.
\<close>

definition currentBranchName :: "IRepositoryState \<Rightarrow> string option" where
  "currentBranchName state =
     (case tip (branchesState state) of Valid b \<Rightarrow> Some (name b) | _ \<Rightarrow> None)"

definition filteredBranches :: "GitLayer \<Rightarrow> IRepositoryState \<Rightarrow> Branch list" where
  "filteredBranches git state =
     filter (\<lambda>b. eligibleForFastForward git b (currentBranchName state))
       (allBranches (branchesState state))"

definition eligibleBranches :: "GitLayer \<Rightarrow> IRepositoryState \<Rightarrow> Branch list" where
  "eligibleBranches git state =
     (let eligible = filteredBranches git state
      in if length eligible \<ge> FastForwardBranchesThreshold
         then (case defaultBranch (branchesState state) of
                 None \<Rightarrow> []
               | Some d \<Rightarrow>
                   if eligibleForFastForward git d (currentBranchName state) then [d] else [])
         else eligible)"

definition fastForwardCall :: "GitLayer \<Rightarrow> Branch \<Rightarrow> UpdateRefCall" where
  "fastForwardCall git b =
     \<lparr>ref = formatAsLocalRef git (name b), oldValue = tip_sha b,
      newValue = upstream b, reason = ''pull: Fast-forward''\<rparr>"

text \<open>
  The loop. It has no handler: the first rejected await ends it. The result is the
  error that ended it early, if any, and the calls of \<open>updateRef\<close> that resolved, in
  order: the refs that were moved.
\<close>

fun fastForwardLoop :: "GitLayer \<Rightarrow> Branch list \<Rightarrow> Error option \<times> UpdateRefCall list" where
  "fastForwardLoop git [] = (None, [])"
| "fastForwardLoop git (b # bs) =
     (case getBranchAheadBehind git b of
        Inl e \<Rightarrow> (Some e, [])
      | Inr None \<Rightarrow> fastForwardLoop git bs
      | Inr (Some aheadBehind) \<Rightarrow>
         if ahead aheadBehind = 0 \<and> behind aheadBehind > 0
         then (case updateRef git (fastForwardCall git b) of
                 Some e \<Rightarrow> (Some e, [])
               | None \<Rightarrow>
                  (case fastForwardLoop git bs of
                     (res, calls) \<Rightarrow> (res, fastForwardCall git b # calls)))
         else fastForwardLoop git bs)"

definition fastForwardBranches ::
  "GitLayer \<Rightarrow> Repository \<Rightarrow> AppStore \<Rightarrow> Error option \<times> UpdateRefCall list" where
  "fastForwardBranches git r s = fastForwardLoop git (eligibleBranches git (cache_get s r))"

text \<open>
  Modelled from the spec: \<^verbatim>\<open>eligibleForFastForward\<close> of the branch model, which is not
  part of app-store.ts. A branch is eligible when it tracks a remote branch and is not
  the current branch.
\<close>

definition eligibleForFastForward_spec :: "Branch \<Rightarrow> string option \<Rightarrow> bool" where
  "eligibleForFastForward_spec b current =
     (upstream b \<noteq> None \<and> Some (name b) \<noteq> current)"

section \<open>Progress of a push\<close>

text \<open>
  \<^verbatim>\<open>updatePushPullFetchProgress\<close> stores the progress in the repository's slice and emits
  an update when the repository is the selected one.
\<close>

definition updatePushPullFetchProgress ::
  "Repository \<Rightarrow> Progress option \<Rightarrow> AppStore \<Rightarrow> AppStore" where
  "updatePushPullFetchProgress r p s =
     (let s1 = cache_update r (\<lambda>st. st\<lparr>pushPullFetchProgress := p\<rparr>) s
      in if selectedRepository s1 = Some r then emitUpdate s1 else s1)"

text \<open>
  The weights of \<^verbatim>\<open>performPush\<close>. The program computes them in double precision; here
  they are exact rationals.
\<close>

definition refreshWeight :: rat where
  "refreshWeight = 1 / 10"

definition scale :: rat where
  "scale = (1 / (5 / 2 + 1)) * (1 - refreshWeight)"

definition pushWeight :: rat where
  "pushWeight = 5 / 2 * scale"

definition fetchWeight :: rat where
  "fetchWeight = 1 * scale"

definition refreshStartProgress :: rat where
  "refreshStartProgress = pushWeight + fetchWeight"

text \<open>
  What the command layer does during one push: the progress events that \<^verbatim>\<open>pushRepo\<close> and
  \<^verbatim>\<open>fetchRemotes\<close> hand to their callbacks, in order, and for each awaited step the error
  it rejects with, if it does.
\<close>

record PushRun =
  pushProgress :: "Progress list"
  pushError :: "Error option"
  fetchProgress :: "Progress list"
  fetchError :: "Error option"
  refreshError :: "Error option"
  fastForwardError :: "Error option"

text \<open>
  The function passed to \<^verbatim>\<open>performFailableOperation\<close> in \<^verbatim>\<open>performPush\<close>: the arguments of
  its calls of \<^verbatim>\<open>updatePushPullFetchProgress\<close>, in order, and the error that ended it.
\<close>

definition pushOperation :: "string \<Rightarrow> PushRun \<Rightarrow> Error option \<times> Progress option list" where
  "pushOperation pushTitle run =
     (let pushed = map (\<lambda>p. Some (p\<lparr>title := pushTitle,
                                     progress_value := pushWeight * progress_value p\<rparr>))
                       (pushProgress run)
      in case pushError run of
        Some e \<Rightarrow> (Some e, pushed)
      | None \<Rightarrow>
         (let fetched = map (\<lambda>p. Some (p\<lparr>progress_value :=
                                          pushWeight + progress_value p * fetchWeight\<rparr>))
                            (fetchProgress run)
          in case fetchError run of
            Some e \<Rightarrow> (Some e, pushed @ fetched)
          | None \<Rightarrow>
             (let refreshing = Some \<lparr>progress_kind = ''generic'',
                                     title = ''Refreshing Repository'', description = None,
                                     progress_value = refreshStartProgress\<rparr>
              in case refreshError run of
                Some e \<Rightarrow> (Some e, pushed @ fetched @ [refreshing])
              | None \<Rightarrow>
                 (let forwarding = Some \<lparr>progress_kind = ''generic'',
                                         title = ''Refreshing Repository'',
                                         description = Some ''Fast-forwarding branches'',
                                         progress_value =
                                           refreshStartProgress + refreshWeight * (1 / 2)\<rparr>
                  in (fastForwardError run, pushed @ fetched @ [refreshing, forwarding])))))"

text \<open>
  Modelled from the spec: \<^verbatim>\<open>performFailableOperation\<close> of the git store, which is not part
  of app-store.ts. A failure of the command layer is caught at the point of the call
  and kept for display; the caller goes on.
\<close>

definition performFailableOperation :: "Error option \<times> 'a \<Rightarrow> 'a" where
  "performFailableOperation outcome = snd outcome"

text \<open>
  The function that \<^verbatim>\<open>performPush\<close> passes to \<^verbatim>\<open>withPushPull\<close>, for a repository with a
  remote of the given name: what it throws, and every argument of
  \<^verbatim>\<open>updatePushPullFetchProgress\<close> over its run, in order.
\<close>

definition performPush ::
  "string \<Rightarrow> Tip \<Rightarrow> PushRun \<Rightarrow> (Error + unit) \<times> Progress option list" where
  "performPush remoteName t run =
     (case t of
        Unborn \<Rightarrow> (Inl (Error ''The current branch is unborn.''), [])
      | Detached x \<Rightarrow>
          (Inl (Error ''The current repository is in a detached HEAD state.''), [])
      | Unknown \<Rightarrow> (Inr (), [])
      | Valid branch \<Rightarrow>
          (let pushTitle = ''Pushing to '' @ remoteName
           in (Inr (),
               [Some \<lparr>progress_kind = ''push'', title = pushTitle, description = None,
                      progress_value = 0\<rparr>]
               @ performFailableOperation (pushOperation pushTitle run)
               @ [None])))"

text \<open>The values of a sequence of reported progress: null for a cleared progress.\<close>

definition progressValues :: "Progress option list \<Rightarrow> rat option list" where
  "progressValues ps = map (map_option progress_value) ps"

section \<open>The reentrancy gates\<close>

text \<open>
  The function wrapped by a gate is an async function over the store: it ends by
  returning or by throwing, and leaves the store as it and the events interleaved with
  it have made it. The \<^verbatim>\<open>finally\<close> block runs on both ends.
\<close>

definition isCommitting_enter :: "Repository \<Rightarrow> AppStore \<Rightarrow> AppStore option" where
  "isCommitting_enter r s =
     (if isCommitting (cache_get s r) then None
      else Some (emitUpdate (cache_update r (\<lambda>st. st\<lparr>isCommitting := True\<rparr>) s)))"

definition isCommitting_finally :: "Repository \<Rightarrow> AppStore \<Rightarrow> AppStore" where
  "isCommitting_finally r s =
     emitUpdate (cache_update r (\<lambda>st. st\<lparr>isCommitting := False\<rparr>) s)"

text \<open>
  The wrapped function resolves with the SHA of the commit or with undefined; the
  gate resolves with undefined when it is held, and else with whether there is a SHA.
\<close>

definition isCommitting_gate ::
  "Repository \<Rightarrow> (AppStore \<Rightarrow> (Error + string option) \<times> AppStore) \<Rightarrow> AppStore
     \<Rightarrow> (Error + bool option) \<times> AppStore" where
  "isCommitting_gate r fn s =
     (case isCommitting_enter r s of
        None \<Rightarrow> (Inr None, s)
      | Some s1 \<Rightarrow>
          (let (res, s2) = fn s1
           in (case res of
                 Inl e \<Rightarrow> Inl e
               | Inr commit_sha \<Rightarrow> Inr (Some (commit_sha \<noteq> None)),
               isCommitting_finally r s2)))"

text \<open>
  \<^verbatim>\<open>withPushPull\<close> in its two halves, for the runs that interleave: the check and the
  setting of the flag, which run without a suspension point between them, and the
  \<^verbatim>\<open>finally\<close> block.
\<close>

definition withPushPull_enter :: "Repository \<Rightarrow> AppStore \<Rightarrow> AppStore option" where
  "withPushPull_enter r s =
     (if isPushPullFetchInProgress (cache_get s r) then None
      else Some (emitUpdate
                   (cache_update r (\<lambda>st. st\<lparr>isPushPullFetchInProgress := True\<rparr>) s)))"

definition withPushPull_finally :: "Repository \<Rightarrow> AppStore \<Rightarrow> AppStore" where
  "withPushPull_finally r s =
     emitUpdate (cache_update r (\<lambda>st. st\<lparr>isPushPullFetchInProgress := False\<rparr>) s)"

definition withPushPull ::
  "Repository \<Rightarrow> (AppStore \<Rightarrow> (Error + unit) \<times> AppStore) \<Rightarrow> AppStore
     \<Rightarrow> (Error + unit) \<times> AppStore" where
  "withPushPull r fn s =
     (case withPushPull_enter r s of
        None \<Rightarrow> (Inr (), s)
      | Some s1 \<Rightarrow> (let (res, s2) = fn s1 in (res, withPushPull_finally r s2)))"

section \<open>Network operations in flight\<close>










section \<open>The merge preview\<close>

text \<open>What \<^verbatim>\<open>getCompareCommits\<close> resolves with, when not null.\<close>

record ICompareResult =
  compare_ahead :: nat
  compare_behind :: nat
  compare_commits :: "string list"

record ICompareToBranch =
  action_branch :: Branch
  action_comparisonMode :: ComparisonMode

text \<open>
  A merge-tree computation that has been started and whose promise has not settled:
  the promise, the repository it was started for, and the time of its start.
\<close>

record MergeTreeRun =
  run_promise :: nat
  run_repository :: Repository
  run_started :: nat

text \<open>
  The store together with the merge-tree promises: those not yet settled, those
  settled whose \<^verbatim>\<open>cleanup\<close> handler has not run yet, and the number of promises made
  so far. Only the store is state of the program.
\<close>

record CompareSystem =
  cmp_store :: AppStore
  running :: "MergeTreeRun list"
  awaitingCleanup :: "nat list"
  promisesMade :: nat

text \<open>
  Modelled from the spec: \<^verbatim>\<open>promiseWithMinimumTimeout\<close> of the promise helpers, which is
  not part of app-store.ts. The promise it returns for a computation started at
  \<open>started\<close> does not settle before \<open>timeout\<close> milliseconds have passed.
\<close>

definition promiseWithMinimumTimeout_maySettle :: "nat \<Rightarrow> nat \<Rightarrow> nat \<Rightarrow> bool" where
  "promiseWithMinimumTimeout_maySettle started timeout now = (started + timeout \<le> now)"

text \<open>
  \<^verbatim>\<open>updateCompareToBranch\<close> from the point where \<^verbatim>\<open>getCompareCommits\<close> has resolved, at time
  \<open>now\<close>, with the git store's tip. The result is the promise returned, when it is
  the merge-tree promise. The insertion into the ahead/behind updater and
  \<^verbatim>\<open>updateOrSelectFirstCommit\<close>, which write neither the merge status nor
  \<^verbatim>\<open>currentMergeTreePromise\<close>, are left out.
\<close>

definition updateCompareToBranch ::
  "nat \<Rightarrow> Repository \<Rightarrow> ICompareToBranch \<Rightarrow> ICompareResult option \<Rightarrow> Tip \<Rightarrow> CompareSystem
     \<Rightarrow> nat option \<times> CompareSystem" where
  "updateCompareToBranch now r action compare t sys =
     (case compare of
        None \<Rightarrow> (None, sys)
      | Some c \<Rightarrow>
         (let aheadBehind = \<lparr>ahead = compare_ahead c, behind = compare_behind c\<rparr>;
              comparisonBranch = action_branch action;
              s1 = updateCompareState r
                     (\<lambda>st. st\<lparr>formState := Compare comparisonBranch
                                               (action_comparisonMode action) aheadBehind,
                               filterText := name comparisonBranch,
                               commitSHAs := compare_commits c\<rparr>) (cmp_store sys);
              s2 = emitUpdate (updateCompareState r (\<lambda>st. st\<lparr>mergeStatus := Some Loading\<rparr>) s1)
          in case currentMergeTreePromise s2 of
               Some p \<Rightarrow> (Some p, sys\<lparr>cmp_store := s2\<rparr>)
             | None \<Rightarrow>
                (case t of
                   Valid tb \<Rightarrow>
                     if behind aheadBehind > 0
                     then (let p = promisesMade sys
                           in (Some p,
                               sys\<lparr>cmp_store := s2\<lparr>currentMergeTreePromise := Some p\<rparr>,
                                   running := running sys @
                                     [\<lparr>run_promise = p, run_repository = r, run_started = now\<rparr>],
                                   promisesMade := Suc p\<rparr>))
                     else (None, sys\<lparr>cmp_store :=
                             emitUpdate (updateCompareState r (\<lambda>st. st\<lparr>mergeStatus := None\<rparr>) s2)\<rparr>)
                 | _ \<Rightarrow> (None, sys\<lparr>cmp_store :=
                             emitUpdate (updateCompareState r (\<lambda>st. st\<lparr>mergeStatus := None\<rparr>) s2)\<rparr>))))"

text \<open>
  What the handlers of a settled merge-tree promise write as merge status: null after
  an error of \<^verbatim>\<open>mergeTree\<close>, and else its result.
\<close>

definition settledStatus :: "Error + MergeResult option \<Rightarrow> MergeResult option" where
  "settledStatus result = (case result of Inl e \<Rightarrow> None | Inr st \<Rightarrow> st)"

text \<open>
  The merge-tree promise \<open>p\<close> settles at time \<open>now\<close>: with the error of \<^verbatim>\<open>mergeTree\<close>,
  which the \<^verbatim>\<open>catch\<close> handler turns into null, or with its result, which the \<^verbatim>\<open>then\<close>
  handler writes to the slice.
\<close>

definition mergeTreeSettled ::
  "nat \<Rightarrow> nat \<Rightarrow> Error + MergeResult option \<Rightarrow> CompareSystem \<Rightarrow> CompareSystem" where
  "mergeTreeSettled now p result sys =
     (case find (\<lambda>run. run_promise run = p) (running sys) of
        None \<Rightarrow> sys
      | Some run \<Rightarrow>
         if promiseWithMinimumTimeout_maySettle (run_started run) 500 now
         then (let status = settledStatus result
               in sys\<lparr>cmp_store := emitUpdate
                         (updateCompareState (run_repository run)
                            (\<lambda>st. st\<lparr>mergeStatus := status\<rparr>) (cmp_store sys)),
                       running := filter (\<lambda>x. run_promise x \<noteq> p) (running sys),
                       awaitingCleanup := awaitingCleanup sys @ [p]\<rparr>)
         else sys)"

text \<open>The \<^verbatim>\<open>cleanup\<close> handler of promise \<open>p\<close>, which runs after the promise has settled.\<close>

definition cleanup :: "nat \<Rightarrow> CompareSystem \<Rightarrow> CompareSystem" where
  "cleanup p sys =
     (if p \<in> set (awaitingCleanup sys)
      then sys\<lparr>cmp_store := (cmp_store sys)\<lparr>currentMergeTreePromise := None\<rparr>,
               awaitingCleanup := remove1 p (awaitingCleanup sys)\<rparr>
      else sys)"

datatype CompareEvent =
  CompareTo nat Repository ICompareToBranch "ICompareResult option" Tip
  | Settled nat nat "Error + MergeResult option"
  | Cleanup nat

fun compareStep :: "CompareSystem \<Rightarrow> CompareEvent \<Rightarrow> CompareSystem" where
  "compareStep sys (CompareTo now r action compare t) =
     snd (updateCompareToBranch now r action compare t sys)"
| "compareStep sys (Settled now p result) = mergeTreeSettled now p result sys"
| "compareStep sys (Cleanup p) = cleanup p sys"

definition compareRun :: "CompareSystem \<Rightarrow> CompareEvent list \<Rightarrow> CompareSystem" where
  "compareRun sys evs = foldl compareStep sys evs"

definition runningFor :: "Repository \<Rightarrow> CompareSystem \<Rightarrow> MergeTreeRun list" where
  "runningFor r sys = filter (\<lambda>run. run_repository run = r) (running sys)"

section \<open>A store to start from\<close>

definition initialRepositoryState :: IRepositoryState where
  "initialRepositoryState =
     \<lparr>commitSelection = \<lparr>sha = None, selected_file = None, changedFiles = [],
                          diff = None, loadingDiff = None\<rparr>,
      compareState = \<lparr>formState = History, filterText = [], commitSHAs = [],
                       mergeStatus = None, cmp_allBranches = [], cmp_recentBranches = [],
                       cmp_defaultBranch = None,
                       inferredComparisonBranch =
                         \<lparr>inferred_branch = None, inferred_aheadBehind = None\<rparr>,
                       isDivergingBranchBannerVisible = False,
                       aheadBehindCache = None\<rparr>,
      branchesState = \<lparr>tip = Unknown, defaultBranch = None, allBranches = [],
                        recentBranches = []\<rparr>,
      remote = None,
      isCommitting = False,
      isPushPullFetchInProgress = False,
      pushPullFetchProgress = None\<rparr>"

definition initialStore :: AppStore where
  "initialStore =
     \<lparr>repositoryStateCache = (\<lambda>r. initialRepositoryState),
      selectedRepository = None, windowHidden = False, emitQueued = False,
      emitted = 0, currentMergeTreePromise = None, currentPopup = None,
      currentFoldout = None, resolveOpenInKactus = False\<rparr>"


definition initialCompareSystem :: CompareSystem where
  "initialCompareSystem =
     \<lparr>cmp_store = initialStore, running = [], awaitingCleanup = [], promisesMade = 0\<rparr>"

section \<open>Inputs for the closed statements\<close>

definition mainBranch :: Branch where
  "mainBranch = \<lparr>name = ''main'', upstream = Some ''origin/main'', tip_sha = ''m0''\<rparr>"

definition featureBranch :: Branch where
  "featureBranch =
     \<lparr>name = ''feature'', upstream = Some ''origin/feature'', tip_sha = ''f0''\<rparr>"

definition readmeFile :: CommittedFileChange where
  "readmeFile = \<lparr>file_id = ''c1+README.md'', file_path = ''README.md''\<rparr>"

definition readmeDiff :: IDiff where
  "readmeDiff = \<lparr>kind = Text, content = ''+ hello'', previews = None\<rparr>"

text \<open>
  Commit \<open>c1\<close> is selected, a load of the README's diff is started with token 1/4,
  and before it completes the same file is selected again, with token 1/2.
\<close>

definition firstLoadStarted :: "(Error + DiffLoad option) \<times> AppStore" where
  "firstLoadStarted =
     changeFileSelection_start False 1 readmeFile (1 / 4)
       (changeCommitSelection 1 ''c1'' initialStore)"

definition firstLoad :: DiffLoad where
  "firstLoad = \<lparr>load_sha = ''c1'', load_file = readmeFile, load_diffId = 1 / 4\<rparr>"

definition reselectedStore :: AppStore where
  "reselectedStore =
     snd (changeFileSelection_start False 1 readmeFile (1 / 2) (snd firstLoadStarted))"




text \<open>
  On branch \<open>feature\<close>, with the local branches \<open>main\<close>, three commits behind its
  upstream, and \<open>topic\<close>, which has diverged from its upstream.
\<close>

definition topicBranch :: Branch where
  "topicBranch = \<lparr>name = ''topic'', upstream = Some ''origin/topic'', tip_sha = ''t0''\<rparr>"

definition exampleGit :: GitLayer where
  "exampleGit =
     \<lparr>eligibleForFastForward = eligibleForFastForward_spec,
      getBranchAheadBehind =
        (\<lambda>b. if name b = ''topic'' then Inr (Some \<lparr>ahead = 2, behind = 1\<rparr>)
              else Inr (Some \<lparr>ahead = 0, behind = 3\<rparr>)),
      formatAsLocalRef = (\<lambda>n. ''refs/heads/'' @ n),
      updateRef = (\<lambda>c. None)\<rparr>"

definition threeBranchesStore :: AppStore where
  "threeBranchesStore =
     cache_update 1
       (\<lambda>st. st\<lparr>branchesState :=
          \<lparr>tip = Valid featureBranch, defaultBranch = Some mainBranch,
           allBranches = [mainBranch, featureBranch, topicBranch], recentBranches = []\<rparr>\<rparr>)
       initialStore"

text \<open>
  Twenty local branches that track a remote branch, \<open>main\<close>, the default branch,
  among them; no branch is checked out.
\<close>

definition nineteenBranches :: "Branch list" where
  "nineteenBranches =
     map (\<lambda>i. \<lparr>name = replicate (Suc i) CHR ''b'', upstream = Some ''origin/b'',
               tip_sha = ''b0''\<rparr>) [0..<19]"

definition bBranch :: Branch where
  "bBranch = \<lparr>name = ''b'', upstream = Some ''origin/b'', tip_sha = ''b0''\<rparr>"

definition twentyBranchesState :: IRepositoryState where
  "twentyBranchesState =
     initialRepositoryState\<lparr>branchesState :=
       \<lparr>tip = Unknown, defaultBranch = Some mainBranch,
        allBranches = mainBranch # nineteenBranches, recentBranches = []\<rparr>\<rparr>"

text \<open>A push that reports half of its work, then a quarter, and then succeeds.\<close>

definition fraction :: "rat \<Rightarrow> Progress" where
  "fraction v = \<lparr>progress_kind = ''push'', title = ''Pushing'', description = None,
                 progress_value = v\<rparr>"

definition backwardsRun :: PushRun where
  "backwardsRun =
     \<lparr>pushProgress = [fraction (1 / 2), fraction (1 / 4)], pushError = None,
      fetchProgress = [fraction 1], fetchError = None, refreshError = None,
      fastForwardError = None\<rparr>"

definition steadyRun :: PushRun where
  "steadyRun =
     \<lparr>pushProgress = [fraction 0, fraction 1], pushError = None,
      fetchProgress = [fraction 0, fraction 1], fetchError = None, refreshError = None,
      fastForwardError = None\<rparr>"

text \<open>The first load is in flight and another commit is selected.\<close>

definition movedOnStore :: AppStore where
  "movedOnStore = changeCommitSelection 1 ''c2'' (snd firstLoadStarted)"

definition twentyBranchesStore :: AppStore where
  "twentyBranchesStore = cache_update 1 (\<lambda>st. twentyBranchesState) initialStore"



text \<open>
  A command layer for which every branch is three commits behind its upstream, and
  which rejects the update of the ref of \<open>main\<close>.
\<close>

definition rejectingGit :: GitLayer where
  "rejectingGit =
     \<lparr>eligibleForFastForward = eligibleForFastForward_spec,
      getBranchAheadBehind = (\<lambda>b. Inr (Some \<lparr>ahead = 0, behind = 3\<rparr>)),
      formatAsLocalRef = (\<lambda>n. ''refs/heads/'' @ n),
      updateRef = (\<lambda>c. if ref c = ''refs/heads/main''
                         then Some (Error ''cannot lock ref'') else None)\<rparr>"

text \<open>A store in which both gates of repository 1 are held.\<close>

definition heldStore :: AppStore where
  "heldStore =
     cache_update 1 (\<lambda>st. st\<lparr>isCommitting := True, isPushPullFetchInProgress := True\<rparr>)
       initialStore"

text \<open>A network operation and a commit that throw.\<close>

definition failingPush :: "AppStore \<Rightarrow> (Error + unit) \<times> AppStore" where
  "failingPush s = (Inl (Error ''The current branch is unborn.''), s)"

definition failingCommit :: "AppStore \<Rightarrow> (Error + string option) \<times> AppStore" where
  "failingCommit s = (Inl (Error ''nothing to commit''), s)"

text \<open>A commit that succeeds.\<close>

definition committing :: "AppStore \<Rightarrow> (Error + string option) \<times> AppStore" where
  "committing s = (Inr (Some ''c3''), s)"

text \<open>A comparison with \<open>main\<close>, which is two commits ahead of the current branch.\<close>

definition toMain :: ICompareToBranch where
  "toMain = \<lparr>action_branch = mainBranch, action_comparisonMode = Behind\<rparr>"

definition behindTwo :: ICompareResult where
  "behindTwo = \<lparr>compare_ahead = 0, compare_behind = 2, compare_commits = [''m1'', ''m0'']\<rparr>"

definition firstComparison :: CompareEvent where
  "firstComparison = CompareTo 0 1 toMain (Some behindTwo) (Valid featureBranch)"

section \<open>Notions used by the statements\<close>


text \<open>A branch that is behind its upstream and has no local commits.\<close>

definition behindOnly :: "GitLayer \<Rightarrow> Branch \<Rightarrow> bool" where
  "behindOnly git b =
     (case getBranchAheadBehind git b of
        Inr (Some ab) \<Rightarrow> ahead ab = 0 \<and> 0 < behind ab
      | _ \<Rightarrow> False)"

text \<open>
  No await of the loop's round for a branch is rejected: the ahead and behind counts
  are delivered, and the ref update, when the round makes one, resolves.
\<close>

definition resolves :: "GitLayer \<Rightarrow> Branch \<Rightarrow> bool" where
  "resolves git b =
     (case getBranchAheadBehind git b of
        Inl e \<Rightarrow> False
      | Inr ab \<Rightarrow> behindOnly git b \<longrightarrow> updateRef git (fastForwardCall git b) = None)"

text \<open>
  The fractions that the command layer reports during a run lie between 0 and 1, and
  within the push and within the fetch they do not decrease.
\<close>

definition fractionsInRange :: "PushRun \<Rightarrow> bool" where
  "fractionsInRange run =
     ((\<forall>p \<in> set (pushProgress run). 0 \<le> progress_value p \<and> progress_value p \<le> 1) \<and>
      (\<forall>p \<in> set (fetchProgress run). 0 \<le> progress_value p \<and> progress_value p \<le> 1))"

definition fractionsAscending :: "PushRun \<Rightarrow> bool" where
  "fractionsAscending run =
     (sorted (map progress_value (pushProgress run)) \<and>
      sorted (map progress_value (fetchProgress run)))"

definition succeeds :: "PushRun \<Rightarrow> bool" where
  "succeeds run =
     (pushError run = None \<and> fetchError run = None \<and> refreshError run = None \<and>
      fastForwardError run = None)"


text \<open>
  Every merge-tree promise that has not settled or not been cleaned up is the one in
  \<^verbatim>\<open>currentMergeTreePromise\<close>, there is at most one of them, and while a computation
  has not settled the merge status of its repository is loading.
\<close>

definition previewConsistent :: "CompareSystem \<Rightarrow> bool" where
  "previewConsistent sys =
     ((\<forall>run \<in> set (running sys).
         currentMergeTreePromise (cmp_store sys) = Some (run_promise run)) \<and>
      (\<forall>p \<in> set (awaitingCleanup sys). currentMergeTreePromise (cmp_store sys) = Some p) \<and>
      length (running sys) + length (awaitingCleanup sys) \<le> 1 \<and>
      (\<forall>run \<in> set (running sys).
         mergeStatus (compareState (cache_get (cmp_store sys) (run_repository run))) =
           Some Loading))"

section \<open>Reading the cache after an update\<close>

lemma cache_get_update [simp]:
  "cache_get (cache_update r f s) r' = (if r' = r then f (cache_get s r) else cache_get s r')"
  by (simp add: cache_get_def cache_update_def)

lemma cache_get_emitUpdate [simp]: "cache_get (emitUpdate s) r = cache_get s r"
  by (simp add: cache_get_def emitUpdate_def emitUpdateNow_def)

lemma cache_get_updateCommitSelection [simp]:
  "cache_get (updateCommitSelection r f s) r' =
     (if r' = r then (cache_get s r)\<lparr>commitSelection := f (commitSelection (cache_get s r))\<rparr>
      else cache_get s r')"
  by (simp add: updateCommitSelection_def)

lemma cache_get_updateCompareState [simp]:
  "cache_get (updateCompareState r f s) r' =
     (if r' = r then (cache_get s r)\<lparr>compareState := f (compareState (cache_get s r))\<rparr>
      else cache_get s r')"
  by (simp add: updateCompareState_def)

lemma cache_get_initialStore [simp]: "cache_get initialStore r = initialRepositoryState"
  by (simp add: cache_get_def initialStore_def)

section \<open>Selecting a commit\<close>

text \<open>
  C10: \<^verbatim>\<open>_changeCommitSelection\<close> called with the SHA that is already selected leaves the
  whole store as it is: the commit-selection slice with its file, changed files and
  diff, and the queue and count of emitted updates. Called with another SHA it stores
  that SHA and resets file, changed files, diff and loadingDiff. A second call with
  the same SHA changes nothing any more.
\<close>

theorem changeCommitSelection_same_or_reset:
  "(sha (commitSelection (cache_get s r)) = Some x \<longrightarrow> changeCommitSelection r x s = s) \<and>
   (sha (commitSelection (cache_get s r)) \<noteq> Some x \<longrightarrow>
      commitSelection (cache_get (changeCommitSelection r x s) r) =
        \<lparr>sha = Some x, selected_file = None, changedFiles = [], diff = None,
         loadingDiff = None\<rparr>) \<and>
   changeCommitSelection r x (changeCommitSelection r x s) = changeCommitSelection r x s"
  by (simp add: changeCommitSelection_def)

text \<open>
  In the store where the README of commit \<open>c1\<close> is selected and loading, selecting
  \<open>c1\<close> again changes nothing, and selecting \<open>c2\<close> resets the slice.
\<close>

theorem changeCommitSelection_same_or_reset_witness:
  "sha (commitSelection (cache_get reselectedStore 1)) = Some ''c1'' \<and>
   changeCommitSelection 1 ''c1'' reselectedStore = reselectedStore \<and>
   sha (commitSelection (cache_get reselectedStore 1)) \<noteq> Some ''c2'' \<and>
   commitSelection (cache_get (changeCommitSelection 1 ''c2'' reselectedStore) 1) =
     \<lparr>sha = Some ''c2'', selected_file = None, changedFiles = [], diff = None,
      loadingDiff = None\<rparr>"
proof -
  have selected: "sha (commitSelection (cache_get reselectedStore 1)) = Some ''c1''"
    by (simp add: reselectedStore_def firstLoadStarted_def changeFileSelection_start_def
        changeCommitSelection_def Let_def initialRepositoryState_def)
  from selected
    changeCommitSelection_same_or_reset [of reselectedStore 1 "''c1''"]
    changeCommitSelection_same_or_reset [of reselectedStore 1 "''c2''"]
  show ?thesis by simp
qed

section \<open>A diff load that completes late\<close>

text \<open>
  C5: the completion of a diff load in \<^verbatim>\<open>_changeFileSelection\<close> leaves the whole store
  as it finds it when the selected commit SHA is no longer the one read at the start,
  when no file is selected, or when the selected file's id is not the requested
  file's. When SHA and file id still match, the diff is written, whatever token the
  slice holds. The token is what the sketch-preview callback checks: with a token of
  0, or one that is not the slice's \<open>loadingDiff\<close>, it gives up and leaves the store
  as it is.
\<close>

theorem stale_load_discarded:
  "((sha (commitSelection (cache_get s r)) \<noteq> Some (load_sha ld) \<or>
     selected_file (commitSelection (cache_get s r)) = None \<or>
     (\<exists>f'. selected_file (commitSelection (cache_get s r)) = Some f' \<and>
           file_id f' \<noteq> file_id (load_file ld)))
      \<longrightarrow> changeFileSelection_finish r ld d s = s) \<and>
   ((sha (commitSelection (cache_get s r)) = Some (load_sha ld) \<and>
     (\<exists>f'. selected_file (commitSelection (cache_get s r)) = Some f' \<and>
           file_id f' = file_id (load_file ld)))
      \<longrightarrow> diff (commitSelection (cache_get (changeFileSelection_finish r ld d s) r)) = Some d) \<and>
   ((diffId = 0 \<or> loadingDiff (commitSelection (cache_get s r)) \<noteq> Some diffId)
      \<longrightarrow> updateDiffWithSketchPreview r diffId err pv s = (GaveUp, s))"
  by (auto simp add: changeFileSelection_finish_def updateDiffWithSketchPreview_def Let_def
      split: option.splits)

text \<open>
  After commit \<open>c2\<close> has been selected, the first load and its preview callback
  change nothing; had the selection stayed, the diff would have been written.
\<close>

theorem stale_load_discarded_witness:
  "sha (commitSelection (cache_get movedOnStore 1)) \<noteq> Some (load_sha firstLoad) \<and>
   changeFileSelection_finish 1 firstLoad readmeDiff movedOnStore = movedOnStore \<and>
   loadingDiff (commitSelection (cache_get movedOnStore 1)) \<noteq> Some (1 / 4) \<and>
   updateDiffWithSketchPreview 1 (1 / 4) None (Some ''png'') movedOnStore =
     (GaveUp, movedOnStore) \<and>
   sha (commitSelection (cache_get (snd firstLoadStarted) 1)) = Some (load_sha firstLoad) \<and>
   diff (commitSelection
     (cache_get (changeFileSelection_finish 1 firstLoad readmeDiff (snd firstLoadStarted)) 1)) =
     Some readmeDiff"
proof -
  have moved: "commitSelection (cache_get movedOnStore 1) =
      \<lparr>sha = Some ''c2'', selected_file = None, changedFiles = [], diff = None,
       loadingDiff = None\<rparr>"
    by (simp add: movedOnStore_def firstLoadStarted_def changeFileSelection_start_def
        changeCommitSelection_def Let_def initialRepositoryState_def)
  have stayed: "commitSelection (cache_get (snd firstLoadStarted) 1) =
      \<lparr>sha = Some ''c1'', selected_file = Some readmeFile, changedFiles = [], diff = None,
       loadingDiff = Some (1 / 4)\<rparr>"
    by (simp add: firstLoadStarted_def changeFileSelection_start_def
        changeCommitSelection_def Let_def initialRepositoryState_def)
  from moved stayed
    stale_load_discarded [of movedOnStore 1 firstLoad readmeDiff "1 / 4" None "Some ''png''"]
    stale_load_discarded [of "snd firstLoadStarted" 1 firstLoad readmeDiff "1 / 4" None None]
  show ?thesis by (simp add: firstLoad_def)
qed

text \<open>
  The README is selected a second time while its first load is in flight. The slice
  then holds the second token, 1/2, and not the first load's, 1/4; SHA and file are
  unchanged. The first load's completion writes its diff and clears the token.
\<close>

theorem changeFileSelection_counterexample:
  "fst firstLoadStarted = Inr (Some firstLoad) \<and>
   sha (commitSelection (cache_get reselectedStore 1)) = Some (load_sha firstLoad) \<and>
   selected_file (commitSelection (cache_get reselectedStore 1)) = Some (load_file firstLoad) \<and>
   loadingDiff (commitSelection (cache_get reselectedStore 1)) = Some (1 / 2) \<and>
   load_diffId firstLoad = 1 / 4 \<and>
   diff (commitSelection (cache_get reselectedStore 1)) = None \<and>
   commitSelection
     (cache_get (changeFileSelection_finish 1 firstLoad readmeDiff reselectedStore) 1) =
     \<lparr>sha = Some ''c1'', selected_file = Some readmeFile, changedFiles = [],
      diff = Some readmeDiff, loadingDiff = None\<rparr>"
  by (simp add: firstLoadStarted_def firstLoad_def reselectedStore_def
      changeFileSelection_start_def changeFileSelection_finish_def changeCommitSelection_def
      Let_def readmeDiff_def readmeFile_def initialRepositoryState_def)

section \<open>The diverging-branch banner after a refresh\<close>

lemma setBanner_visible [simp]:
  "isDivergingBranchBannerVisible
     (compareState (cache_get (setDivergingBranchBannerVisibility r v s) r)) = v"
  by (simp add: setDivergingBranchBannerVisibility_def)

lemma setBanner_inferred [simp]:
  "inferredComparisonBranch
     (compareState (cache_get (setDivergingBranchBannerVisibility r v s) r')) =
   inferredComparisonBranch (compareState (cache_get s r'))"
  by (simp add: setDivergingBranchBannerVisibility_def)




section \<open>When the background fetcher skips a fetch\<close>

text \<open>
  C7: \<^verbatim>\<open>shouldBackgroundFetch\<close> skips the fetch exactly when the repository has been
  fetched before and either that fetch lies within the minimum interval, whatever has
  been pushed since, or a last push is known and is not later than the last fetch.
  The background fetcher, which knows of no push, skips exactly within the interval.
\<close>

theorem shouldBackgroundFetch_skips_iff:
  "(shouldBackgroundFetch now lastFetched lastPush = False \<longleftrightarrow>
     (\<exists>fetched. lastFetched = Some fetched \<and>
        (now - fetched < BackgroundFetchMinimumInterval \<or>
         (\<exists>pushed. lastPush = Some pushed \<and> pushed \<le> fetched)))) \<and>
   (backgroundFetcherPolicy now lastFetched = False \<longleftrightarrow>
     (\<exists>fetched. lastFetched = Some fetched \<and>
        now - fetched < BackgroundFetchMinimumInterval))"
  by (auto simp add: shouldBackgroundFetch_def backgroundFetcherPolicy_def Let_def
      split: option.splits)

text \<open>
  A fetch more than an hour ago and a push before it: skipped.
\<close>

theorem shouldBackgroundFetch_skips_iff_witness:
  "shouldBackgroundFetch 4000000 (Some 1000) (Some 500) = False \<and>
   \<not> (4000000 - 1000 < BackgroundFetchMinimumInterval) \<and> (500::int) \<le> 1000"
  using shouldBackgroundFetch_skips_iff [of 4000000 "Some 1000" "Some 500"]
  by (simp add: BackgroundFetchMinimumInterval_def)

text \<open>
  The last fetch is 100 ms old, within the minimum interval, and the last push is
  later than it: the fetch is skipped all the same.
\<close>

theorem shouldBackgroundFetch_counterexample:
  "1000 - 900 < BackgroundFetchMinimumInterval \<and> (900::int) < 950 \<and>
   shouldBackgroundFetch 1000 (Some 900) (Some 950) = False"
  by (simp add: shouldBackgroundFetch_def BackgroundFetchMinimumInterval_def)

section \<open>Which refs a fast-forward moves\<close>

lemma fastForwardLoop_round:
  "fastForwardLoop git (b # bs) =
     (case getBranchAheadBehind git b of
        Inl e \<Rightarrow> (Some e, [])
      | Inr ab \<Rightarrow>
          if behindOnly git b
          then (case updateRef git (fastForwardCall git b) of
                  Some e \<Rightarrow> (Some e, [])
                | None \<Rightarrow> (fst (fastForwardLoop git bs),
                           fastForwardCall git b # snd (fastForwardLoop git bs)))
          else fastForwardLoop git bs)"
  by (simp add: behindOnly_def split: sum.splits option.splits prod.splits)

lemma fastForwardLoop_calls:
  "c \<in> set (snd (fastForwardLoop git bs)) \<Longrightarrow>
   \<exists>b \<in> set bs. behindOnly git b \<and> c = fastForwardCall git b"
proof (induction bs)
  case Nil
  then show ?case by simp
next
  case (Cons b bs)
  then show ?case
    unfolding fastForwardLoop_round
    by (auto split: sum.splits option.splits if_splits)
qed

lemma fastForwardLoop_prefix:
  "\<forall>x \<in> set pre. resolves git x \<Longrightarrow>
   fastForwardLoop git (pre @ rest) =
     (fst (fastForwardLoop git rest),
      map (fastForwardCall git) (filter (behindOnly git) pre) @ snd (fastForwardLoop git rest))"
proof (induction pre)
  case Nil
  then show ?case by simp
next
  case (Cons b pre)
  then show ?case
    unfolding append_Cons fastForwardLoop_round
    by (auto simp add: resolves_def split: sum.splits option.splits)
qed

lemma fastForwardLoop_reached:
  assumes "\<forall>x \<in> set pre. resolves git x" and "resolves git b" and "behindOnly git b"
  shows "fastForwardCall git b \<in> set (snd (fastForwardLoop git (pre @ b # post)))"
proof -
  from assms(2,3) have "fastForwardCall git b \<in> set (snd (fastForwardLoop git (b # post)))"
    unfolding fastForwardLoop_round
    by (auto simp add: resolves_def split: sum.splits option.splits)
  with fastForwardLoop_prefix [OF assms(1), of "b # post"] show ?thesis by simp
qed

text \<open>
  C2: every ref that \<^verbatim>\<open>fastForwardBranches\<close> moves is the local ref of a branch that is
  behind its upstream and has no local commits, taken from the list that the loop runs
  over (the branches that pass the filter, or from twenty of them on the default branch
  alone), and it is moved from the branch's tip to the branch's upstream. When the
  branches of that list have distinct local refs, the ref of a branch that is ahead of
  its upstream or has diverged from it, or whose counts are unknown, is not moved. The
  ref of a branch of the list that is behind only is moved when no await of the loop
  is rejected up to and including the round of that branch; and when none is rejected
  at all the loop reaches its end.
\<close>

theorem fastForward_only_behind:
  "(\<forall>c \<in> set (snd (fastForwardBranches git r s)).
      \<exists>b \<in> set (eligibleBranches git (cache_get s r)).
        behindOnly git b \<and> ref c = formatAsLocalRef git (name b) \<and>
        oldValue c = tip_sha b \<and> newValue c = upstream b) \<and>
   (distinct (map (\<lambda>b. formatAsLocalRef git (name b)) (eligibleBranches git (cache_get s r))) \<longrightarrow>
    (\<forall>b \<in> set (eligibleBranches git (cache_get s r)).
        \<not> behindOnly git b \<longrightarrow>
        formatAsLocalRef git (name b) \<notin> ref ` set (snd (fastForwardBranches git r s)))) \<and>
   (\<forall>pre b post.
      eligibleBranches git (cache_get s r) = pre @ b # post \<and>
      (\<forall>x \<in> set pre. resolves git x) \<and> resolves git b \<and> behindOnly git b \<longrightarrow>
      fastForwardCall git b \<in> set (snd (fastForwardBranches git r s))) \<and>
   ((\<forall>b \<in> set (eligibleBranches git (cache_get s r)). resolves git b) \<longrightarrow>
    fst (fastForwardBranches git r s) = None)"
proof -
  let ?bs = "eligibleBranches git (cache_get s r)"
  let ?moved = "snd (fastForwardLoop git ?bs)"
  have moved: "\<forall>c \<in> set ?moved.
      \<exists>b \<in> set ?bs. behindOnly git b \<and> ref c = formatAsLocalRef git (name b) \<and>
        oldValue c = tip_sha b \<and> newValue c = upstream b"
    using fastForwardLoop_calls [of _ git ?bs] by (fastforce simp add: fastForwardCall_def)
  have untouched: "formatAsLocalRef git (name b) \<notin> ref ` set ?moved"
    if d: "distinct (map (\<lambda>b. formatAsLocalRef git (name b)) ?bs)"
      and b: "b \<in> set ?bs" and nb: "\<not> behindOnly git b" for b
  proof
    assume "formatAsLocalRef git (name b) \<in> ref ` set ?moved"
    then obtain c where c: "c \<in> set ?moved" and rc: "ref c = formatAsLocalRef git (name b)"
      by auto
    from moved c obtain x where x: "x \<in> set ?bs" "behindOnly git x"
      "ref c = formatAsLocalRef git (name x)" by blast
    from d have "inj_on (\<lambda>b. formatAsLocalRef git (name b)) (set ?bs)"
      by (simp add: distinct_map)
    with x b rc have "x = b" by (auto dest: inj_onD)
    with x nb show False by simp
  qed
  have reached: "fastForwardCall git b \<in> set ?moved"
    if "?bs = pre @ b # post" "\<forall>x \<in> set pre. resolves git x" "resolves git b"
      "behindOnly git b" for pre b post
    using fastForwardLoop_reached [OF that(2,3,4), of post] that(1) by simp
  have finished: "fst (fastForwardLoop git ?bs) = None"
    if "\<forall>b \<in> set ?bs. resolves git b"
    using fastForwardLoop_prefix [OF that, of "[]"] by simp
  show ?thesis
    unfolding fastForwardBranches_def
    using moved untouched reached finished by blast
qed

text \<open>
  On \<open>feature\<close>, with \<open>main\<close> behind and \<open>topic\<close> diverged: the ref of \<open>main\<close> is
  moved and the ref of \<open>topic\<close> is not.
\<close>

lemma planned_three:
  "eligibleBranches git (cache_get threeBranchesStore 1) =
     filter (\<lambda>b. eligibleForFastForward git b (Some ''feature''))
       [mainBranch, featureBranch, topicBranch]"
  by (simp add: eligibleBranches_def filteredBranches_def currentBranchName_def Let_def
      threeBranchesStore_def featureBranch_def FastForwardBranchesThreshold_def)

lemma planned_three_example:
  "eligibleBranches exampleGit (cache_get threeBranchesStore 1) = [mainBranch, topicBranch]"
  unfolding planned_three
  by (simp add: exampleGit_def eligibleForFastForward_spec_def
      mainBranch_def featureBranch_def topicBranch_def)

theorem fastForward_only_behind_witness:
  "eligibleBranches exampleGit (cache_get threeBranchesStore 1) = [] @ mainBranch # [topicBranch] \<and>
   resolves exampleGit mainBranch \<and> resolves exampleGit topicBranch \<and>
   behindOnly exampleGit mainBranch \<and> \<not> behindOnly exampleGit topicBranch \<and>
   fst (fastForwardBranches exampleGit 1 threeBranchesStore) = None \<and>
   fastForwardCall exampleGit mainBranch \<in>
     set (snd (fastForwardBranches exampleGit 1 threeBranchesStore)) \<and>
   formatAsLocalRef exampleGit (name topicBranch) \<notin>
     ref ` set (snd (fastForwardBranches exampleGit 1 threeBranchesStore))"
proof -
  let ?planned = "eligibleBranches exampleGit (cache_get threeBranchesStore 1)"
  have planned: "?planned = [] @ mainBranch # [topicBranch]"
    using planned_three_example by simp
  have main: "behindOnly exampleGit mainBranch"
    by (simp add: behindOnly_def exampleGit_def mainBranch_def)
  have topic: "\<not> behindOnly exampleGit topicBranch"
    by (simp add: behindOnly_def exampleGit_def topicBranch_def)
  have res: "resolves exampleGit mainBranch" "resolves exampleGit topicBranch"
    by (simp_all add: resolves_def exampleGit_def)
  have refs: "distinct (map (\<lambda>b. formatAsLocalRef exampleGit (name b)) ?planned)"
    unfolding planned_three_example
    by (simp add: exampleGit_def mainBranch_def topicBranch_def)
  have all: "\<forall>b \<in> set ?planned. resolves exampleGit b"
    unfolding planned_three_example using res by simp
  have mem: "topicBranch \<in> set ?planned"
    unfolding planned_three_example by simp
  have first: "\<forall>x \<in> set ([]::Branch list). resolves exampleGit x" by simp
  from fastForward_only_behind [of exampleGit 1 threeBranchesStore]
    planned first res main topic refs all mem
  have "fst (fastForwardBranches exampleGit 1 threeBranchesStore) = None \<and>
      fastForwardCall exampleGit mainBranch \<in>
        set (snd (fastForwardBranches exampleGit 1 threeBranchesStore)) \<and>
      formatAsLocalRef exampleGit (name topicBranch) \<notin>
        ref ` set (snd (fastForwardBranches exampleGit 1 threeBranchesStore))"
    by blast
  with planned res main topic show ?thesis by blast
qed

text \<open>
  Two branches that pass the filter, are behind only and keep their ref. With the
  update of \<open>main\<close> rejected, the loop ends there and \<open>topic\<close>, next in the list, is
  not moved. With twenty branches passing the filter, the branch \<open>b\<close> is not in the
  list of the loop, and only \<open>main\<close> is moved.
\<close>

lemma planned_three_rejecting:
  "eligibleBranches rejectingGit (cache_get threeBranchesStore 1) = [mainBranch, topicBranch]"
  unfolding planned_three
  by (simp add: rejectingGit_def eligibleForFastForward_spec_def
      mainBranch_def featureBranch_def topicBranch_def)

lemma nineteen_eligible:
  "filter (\<lambda>b. eligibleForFastForward_spec b None) nineteenBranches = nineteenBranches"
  by (simp add: nineteenBranches_def eligibleForFastForward_spec_def)

lemma filtered_twenty:
  "filteredBranches exampleGit twentyBranchesState = mainBranch # nineteenBranches"
  by (simp add: filteredBranches_def currentBranchName_def twentyBranchesState_def
      exampleGit_def nineteen_eligible)
     (simp add: eligibleForFastForward_spec_def mainBranch_def)

lemma cache_get_twentyBranchesStore:
  "cache_get twentyBranchesStore 1 = twentyBranchesState"
  by (simp add: twentyBranchesStore_def)

lemma planned_twenty:
  "eligibleBranches exampleGit twentyBranchesState = [mainBranch]"
proof -
  have count: "length (filteredBranches exampleGit twentyBranchesState) = 20"
    by (simp add: filtered_twenty nineteenBranches_def)
  show ?thesis
    unfolding eligibleBranches_def Let_def count
    by (simp add: FastForwardBranchesThreshold_def twentyBranchesState_def
        currentBranchName_def exampleGit_def eligibleForFastForward_spec_def mainBranch_def)
qed

theorem fastForward_counterexample:
  "eligibleForFastForward rejectingGit topicBranch
     (currentBranchName (cache_get threeBranchesStore 1)) \<and>
   topicBranch \<in> set (eligibleBranches rejectingGit (cache_get threeBranchesStore 1)) \<and>
   behindOnly rejectingGit topicBranch \<and>
   fastForwardBranches rejectingGit 1 threeBranchesStore = (Some (Error ''cannot lock ref''), []) \<and>
   eligibleForFastForward exampleGit bBranch
     (currentBranchName (cache_get twentyBranchesStore 1)) \<and>
   bBranch \<in> set (allBranches (branchesState (cache_get twentyBranchesStore 1))) \<and>
   behindOnly exampleGit bBranch \<and>
   fastForwardBranches exampleGit 1 twentyBranchesStore =
     (None, [fastForwardCall exampleGit mainBranch]) \<and>
   fastForwardCall exampleGit bBranch \<noteq> fastForwardCall exampleGit mainBranch"
proof -
  have e1: "eligibleForFastForward rejectingGit topicBranch
      (currentBranchName (cache_get threeBranchesStore 1))"
    by (simp add: rejectingGit_def eligibleForFastForward_spec_def currentBranchName_def
        threeBranchesStore_def topicBranch_def featureBranch_def)
  have m1: "topicBranch \<in> set (eligibleBranches rejectingGit (cache_get threeBranchesStore 1))"
    unfolding planned_three_rejecting by simp
  have b1: "behindOnly rejectingGit topicBranch"
    by (simp add: behindOnly_def rejectingGit_def)
  have r1: "fastForwardBranches rejectingGit 1 threeBranchesStore =
      (Some (Error ''cannot lock ref''), [])"
    unfolding fastForwardBranches_def planned_three_rejecting
    by (simp add: rejectingGit_def fastForwardCall_def mainBranch_def)
  have e2: "eligibleForFastForward exampleGit bBranch
      (currentBranchName (cache_get twentyBranchesStore 1))"
    unfolding cache_get_twentyBranchesStore
    by (simp add: exampleGit_def eligibleForFastForward_spec_def currentBranchName_def
        twentyBranchesState_def bBranch_def)
  have "bBranch \<in> set nineteenBranches"
    by (auto simp add: nineteenBranches_def bBranch_def intro!: image_eqI [where x = 0])
  then have m2: "bBranch \<in> set (allBranches (branchesState (cache_get twentyBranchesStore 1)))"
    unfolding cache_get_twentyBranchesStore by (simp add: twentyBranchesState_def)
  have b2: "behindOnly exampleGit bBranch"
    by (simp add: behindOnly_def exampleGit_def bBranch_def)
  have r2: "fastForwardBranches exampleGit 1 twentyBranchesStore =
      (None, [fastForwardCall exampleGit mainBranch])"
    unfolding fastForwardBranches_def cache_get_twentyBranchesStore planned_twenty
    by (simp add: exampleGit_def mainBranch_def)
  have d: "fastForwardCall exampleGit bBranch \<noteq> fastForwardCall exampleGit mainBranch"
    by (simp add: fastForwardCall_def bBranch_def mainBranch_def)
  from e1 m1 b1 r1 e2 m2 b2 r2 d show ?thesis by blast
qed

section \<open>The threshold of twenty branches\<close>

text \<open>
  C3: when twenty or more branches pass the filter, the list of eligible branches is
  the default branch alone, if it passes the filter itself, and empty otherwise, and
  no ref but the default branch's is moved. With fewer than twenty, every branch that
  passes the filter is in the list.
\<close>

theorem narrowed_from_twenty:
  "FastForwardBranchesThreshold = 20 \<and>
   (20 \<le> length (filteredBranches git (cache_get s r)) \<longrightarrow>
      (\<forall>b \<in> set (eligibleBranches git (cache_get s r)).
         defaultBranch (branchesState (cache_get s r)) = Some b \<and>
         eligibleForFastForward git b (currentBranchName (cache_get s r))) \<and>
      (\<forall>d. defaultBranch (branchesState (cache_get s r)) = Some d \<and>
           eligibleForFastForward git d (currentBranchName (cache_get s r)) \<longrightarrow>
           eligibleBranches git (cache_get s r) = [d]) \<and>
      (\<forall>c \<in> set (snd (fastForwardBranches git r s)).
         \<exists>d. defaultBranch (branchesState (cache_get s r)) = Some d \<and>
             c = fastForwardCall git d)) \<and>
   (length (filteredBranches git (cache_get s r)) < 20 \<longrightarrow>
      eligibleBranches git (cache_get s r) = filteredBranches git (cache_get s r))"
proof -
  let ?st = "cache_get s r"
  have few: "eligibleBranches git ?st = filteredBranches git ?st"
    if "length (filteredBranches git ?st) < 20"
    using that by (simp add: eligibleBranches_def Let_def FastForwardBranchesThreshold_def)
  have many: "eligibleBranches git ?st =
      (case defaultBranch (branchesState ?st) of
         None \<Rightarrow> []
       | Some d \<Rightarrow> if eligibleForFastForward git d (currentBranchName ?st) then [d] else [])"
    if "20 \<le> length (filteredBranches git ?st)"
    using that by (simp add: eligibleBranches_def Let_def FastForwardBranchesThreshold_def)
  have only_default: "\<forall>b \<in> set (eligibleBranches git ?st).
      defaultBranch (branchesState ?st) = Some b \<and>
      eligibleForFastForward git b (currentBranchName ?st)"
    if "20 \<le> length (filteredBranches git ?st)"
    using many [OF that] by (auto split: option.splits if_splits)
  have default_kept: "eligibleBranches git ?st = [d]"
    if "20 \<le> length (filteredBranches git ?st)"
      "defaultBranch (branchesState ?st) = Some d"
      "eligibleForFastForward git d (currentBranchName ?st)" for d
    using many [OF that(1)] that(2,3) by simp
  have moved: "\<exists>d. defaultBranch (branchesState ?st) = Some d \<and> c = fastForwardCall git d"
    if "20 \<le> length (filteredBranches git ?st)"
      "c \<in> set (snd (fastForwardBranches git r s))" for c
  proof -
    from that(2) obtain b where "b \<in> set (eligibleBranches git ?st)" "c = fastForwardCall git b"
      unfolding fastForwardBranches_def by (blast dest: fastForwardLoop_calls)
    with only_default [OF that(1)] show ?thesis by blast
  qed
  have threshold: "FastForwardBranchesThreshold = 20"
    by (simp add: FastForwardBranchesThreshold_def)
  have narrowed: "(\<forall>b \<in> set (eligibleBranches git ?st).
         defaultBranch (branchesState ?st) = Some b \<and>
         eligibleForFastForward git b (currentBranchName ?st)) \<and>
      (\<forall>d. defaultBranch (branchesState ?st) = Some d \<and>
           eligibleForFastForward git d (currentBranchName ?st) \<longrightarrow>
           eligibleBranches git ?st = [d]) \<and>
      (\<forall>c \<in> set (snd (fastForwardBranches git r s)).
         \<exists>d. defaultBranch (branchesState ?st) = Some d \<and> c = fastForwardCall git d)"
    if large: "20 \<le> length (filteredBranches git ?st)"
  proof (intro conjI)
    show "\<forall>b \<in> set (eligibleBranches git ?st).
         defaultBranch (branchesState ?st) = Some b \<and>
         eligibleForFastForward git b (currentBranchName ?st)"
      by (rule only_default [OF large])
    show "\<forall>d. defaultBranch (branchesState ?st) = Some d \<and>
           eligibleForFastForward git d (currentBranchName ?st) \<longrightarrow>
           eligibleBranches git ?st = [d]"
      using default_kept [OF large] by blast
    show "\<forall>c \<in> set (snd (fastForwardBranches git r s)).
         \<exists>d. defaultBranch (branchesState ?st) = Some d \<and> c = fastForwardCall git d"
      using moved [OF large] by blast
  qed
  have big: "20 \<le> length (filteredBranches git ?st) \<longrightarrow>
      (\<forall>b \<in> set (eligibleBranches git ?st).
         defaultBranch (branchesState ?st) = Some b \<and>
         eligibleForFastForward git b (currentBranchName ?st)) \<and>
      (\<forall>d. defaultBranch (branchesState ?st) = Some d \<and>
           eligibleForFastForward git d (currentBranchName ?st) \<longrightarrow>
           eligibleBranches git ?st = [d]) \<and>
      (\<forall>c \<in> set (snd (fastForwardBranches git r s)).
         \<exists>d. defaultBranch (branchesState ?st) = Some d \<and> c = fastForwardCall git d)"
    by (rule impI) (rule narrowed)
  have small: "length (filteredBranches git ?st) < 20 \<longrightarrow>
      eligibleBranches git ?st = filteredBranches git ?st"
    by (rule impI) (rule few)
  show ?thesis by (rule conjI [OF threshold conjI [OF big small]])
qed

text \<open>
  Twenty branches pass the filter, \<open>main\<close> among them: only \<open>main\<close> is left. With the
  three branches of the other store, both branches that pass the filter are left.
\<close>

theorem narrowed_from_twenty_witness:
  "20 \<le> length (filteredBranches exampleGit (cache_get twentyBranchesStore 1)) \<and>
   defaultBranch (branchesState (cache_get twentyBranchesStore 1)) = Some mainBranch \<and>
   eligibleForFastForward exampleGit mainBranch
     (currentBranchName (cache_get twentyBranchesStore 1)) \<and>
   eligibleBranches exampleGit (cache_get twentyBranchesStore 1) = [mainBranch] \<and>
   length (filteredBranches exampleGit (cache_get threeBranchesStore 1)) < 20 \<and>
   eligibleBranches exampleGit (cache_get threeBranchesStore 1) =
     filteredBranches exampleGit (cache_get threeBranchesStore 1)"
proof -
  have many: "20 \<le> length (filteredBranches exampleGit (cache_get twentyBranchesStore 1))"
    unfolding cache_get_twentyBranchesStore filtered_twenty
    by (simp add: nineteenBranches_def)
  have dflt: "defaultBranch (branchesState (cache_get twentyBranchesStore 1)) = Some mainBranch"
    unfolding cache_get_twentyBranchesStore by (simp add: twentyBranchesState_def)
  have elig: "eligibleForFastForward exampleGit mainBranch
      (currentBranchName (cache_get twentyBranchesStore 1))"
    unfolding cache_get_twentyBranchesStore
    by (simp add: twentyBranchesState_def currentBranchName_def exampleGit_def
        eligibleForFastForward_spec_def mainBranch_def)
  have few: "length (filteredBranches exampleGit (cache_get threeBranchesStore 1)) < 20"
    by (simp add: filteredBranches_def threeBranchesStore_def)
  from narrowed_from_twenty [of exampleGit twentyBranchesStore 1] many dflt elig
  have one: "eligibleBranches exampleGit (cache_get twentyBranchesStore 1) = [mainBranch]"
    by blast
  from narrowed_from_twenty [of exampleGit threeBranchesStore 1] few
  have two: "eligibleBranches exampleGit (cache_get threeBranchesStore 1) =
      filteredBranches exampleGit (cache_get threeBranchesStore 1)"
    by blast
  from many dflt elig one few two show ?thesis by blast
qed

text \<open>
  Exactly twenty branches pass the filter, which is not more than twenty, and the
  list is narrowed to \<open>main\<close> all the same.
\<close>

theorem narrowing_counterexample:
  "length (filteredBranches exampleGit twentyBranchesState) = 20 \<and>
   \<not> FastForwardBranchesThreshold < 20 \<and>
   eligibleBranches exampleGit twentyBranchesState = [mainBranch] \<and>
   eligibleBranches exampleGit twentyBranchesState \<noteq> filteredBranches exampleGit twentyBranchesState"
proof -
  have count: "length (filteredBranches exampleGit twentyBranchesState) = 20"
    by (simp add: filtered_twenty nineteenBranches_def)
  have narrowed: "eligibleBranches exampleGit twentyBranchesState = [mainBranch]"
    unfolding eligibleBranches_def Let_def count
    by (simp add: FastForwardBranchesThreshold_def twentyBranchesState_def
        currentBranchName_def exampleGit_def eligibleForFastForward_spec_def mainBranch_def)
  have "length (eligibleBranches exampleGit twentyBranchesState) \<noteq>
      length (filteredBranches exampleGit twentyBranchesState)"
    unfolding narrowed count by simp
  then have "eligibleBranches exampleGit twentyBranchesState \<noteq>
      filteredBranches exampleGit twentyBranchesState"
    by auto
  with count narrowed show ?thesis
    by (simp add: FastForwardBranchesThreshold_def)
qed

section \<open>The progress values of a push\<close>

lemma pushWeight_value: "pushWeight = 9 / 14"
  by (simp add: pushWeight_def scale_def refreshWeight_def)

lemma fetchWeight_value: "fetchWeight = 9 / 35"
  by (simp add: fetchWeight_def scale_def refreshWeight_def)

lemma refreshStartProgress_value: "refreshStartProgress = 9 / 10"
  by (simp add: refreshStartProgress_def pushWeight_value fetchWeight_value)

lemma sorted_map_mono:
  fixes f g :: "'a \<Rightarrow> rat"
  assumes "sorted (map g xs)" and "\<And>x y. g x \<le> g y \<Longrightarrow> f x \<le> f y"
  shows "sorted (map f xs)"
  using assms by (induction xs) auto

lemma map_values_pushed:
  "map (map_option progress_value)
     (map (\<lambda>p. Some (p\<lparr>title := t, progress_value := f p\<rparr>)) ps) = map Some (map f ps)"
  by simp

lemma map_values_fetched:
  "map (map_option progress_value)
     (map (\<lambda>p. Some (p\<lparr>progress_value := f p\<rparr>)) ps) = map Some (map f ps)"
  by simp

lemma pushOperation_values:
  assumes range: "fractionsInRange run" and asc: "fractionsAscending run"
  shows "\<exists>ws. progressValues (snd (pushOperation t run)) = map Some ws \<and> sorted ws \<and>
           (\<forall>w \<in> set ws. 0 \<le> w \<and> w \<le> 19 / 20) \<and>
           (succeeds run \<longrightarrow> ws \<noteq> [] \<and> last ws = 19 / 20)"
proof -
  let ?pv = "map (\<lambda>p. pushWeight * progress_value p) (pushProgress run)"
  let ?fv = "map (\<lambda>p. pushWeight + progress_value p * fetchWeight) (fetchProgress run)"
  have pv_sorted: "sorted ?pv"
    using asc by (auto simp add: fractionsAscending_def pushWeight_value intro: sorted_map_mono)
  have fv_sorted: "sorted ?fv"
    using asc by (auto simp add: fractionsAscending_def fetchWeight_value intro: sorted_map_mono)
  have pv_range: "\<forall>w \<in> set ?pv. 0 \<le> w \<and> w \<le> 9 / 14"
    using range by (auto simp add: fractionsInRange_def pushWeight_value)
  have fv_range: "\<forall>w \<in> set ?fv. 9 / 14 \<le> w \<and> w \<le> 9 / 10"
    using range by (auto simp add: fractionsInRange_def pushWeight_value fetchWeight_value)
  have s1: "sorted ?pv \<and> (\<forall>w \<in> set ?pv. 0 \<le> w \<and> w \<le> 19 / 20)"
    using pv_sorted pv_range by fastforce
  have s2: "sorted (?pv @ ?fv) \<and> (\<forall>w \<in> set (?pv @ ?fv). 0 \<le> w \<and> w \<le> 19 / 20)"
    using pv_sorted fv_sorted pv_range fv_range by (fastforce simp add: sorted_append)
  have s3: "sorted (?pv @ ?fv @ [9 / 10]) \<and>
      (\<forall>w \<in> set (?pv @ ?fv @ [9 / 10]). 0 \<le> w \<and> w \<le> 19 / 20)"
    using pv_sorted fv_sorted pv_range fv_range by (fastforce simp add: sorted_append)
  have s4: "sorted (?pv @ ?fv @ [9 / 10, 19 / 20]) \<and>
      (\<forall>w \<in> set (?pv @ ?fv @ [9 / 10, 19 / 20]). 0 \<le> w \<and> w \<le> 19 / 20)"
    using pv_sorted fv_sorted pv_range fv_range by (fastforce simp add: sorted_append)
  show ?thesis
  proof (cases "pushError run")
    case (Some e)
    then have "progressValues (snd (pushOperation t run)) = map Some ?pv"
      by (simp add: pushOperation_def progressValues_def Let_def)
    with s1 Some show ?thesis
      by (intro exI [of _ "?pv"]) (simp add: succeeds_def)
  next
    case pushed: None
    show ?thesis
    proof (cases "fetchError run")
      case (Some e)
      with pushed have "progressValues (snd (pushOperation t run)) = map Some (?pv @ ?fv)"
        by (simp add: pushOperation_def progressValues_def Let_def)
      with s2 Some show ?thesis
        by (intro exI [of _ "?pv @ ?fv"]) (simp add: succeeds_def)
    next
      case fetched: None
      show ?thesis
      proof (cases "refreshError run")
        case (Some e)
        with pushed fetched
        have "progressValues (snd (pushOperation t run)) = map Some (?pv @ ?fv @ [9 / 10])"
          by (simp add: pushOperation_def progressValues_def Let_def refreshStartProgress_value)
        with s3 Some show ?thesis
          by (intro exI [of _ "?pv @ ?fv @ [9 / 10]"]) (simp add: succeeds_def)
      next
        case None
        with pushed fetched
        have "progressValues (snd (pushOperation t run)) =
            map Some (?pv @ ?fv @ [9 / 10, 19 / 20])"
          by (simp add: pushOperation_def progressValues_def Let_def
              refreshStartProgress_value refreshWeight_def)
        with s4 show ?thesis
          by (intro exI [of _ "?pv @ ?fv @ [9 / 10, 19 / 20]"]) simp
      qed
    qed
  qed
qed

text \<open>
  C4: when the fractions that the command layer reports lie between 0 and 1 and do not
  decrease within the push and within the fetch, the values that \<^verbatim>\<open>performPush\<close>
  reports never decrease. They start at 0 and stay at or below 0.95; the last report is
  the clearing of the progress to null, and the value reported just before it by a
  push that succeeds is exactly 0.95.
\<close>

theorem push_progress_ascending:
  assumes "fractionsInRange run" and "fractionsAscending run"
  shows "\<exists>vs. progressValues (snd (performPush remoteName (Valid b) run)) = map Some vs @ [None] \<and>
           sorted vs \<and> hd vs = 0 \<and> (\<forall>v \<in> set vs. 0 \<le> v \<and> v \<le> 19 / 20) \<and>
           (succeeds run \<longrightarrow> last vs = 19 / 20)"
proof -
  from pushOperation_values [OF assms, of "''Pushing to '' @ remoteName"]
  obtain ws where ws: "progressValues (snd (pushOperation (''Pushing to '' @ remoteName) run)) =
        map Some ws" "sorted ws" "\<forall>w \<in> set ws. 0 \<le> w \<and> w \<le> 19 / 20"
      "succeeds run \<longrightarrow> ws \<noteq> [] \<and> last ws = 19 / 20"
    by blast
  have "progressValues (snd (performPush remoteName (Valid b) run)) = map Some (0 # ws) @ [None]"
    using ws(1) by (simp add: performPush_def performFailableOperation_def progressValues_def Let_def)
  moreover have "sorted (0 # ws)" using ws(2,3) by simp
  moreover have "\<forall>v \<in> set (0 # ws). 0 \<le> v \<and> v \<le> 19 / 20" using ws(3) by simp
  moreover have "succeeds run \<longrightarrow> last (0 # ws) = 19 / 20" using ws(4) by simp
  ultimately show ?thesis by (intro exI [of _ "0 # ws"]) simp
qed

text \<open>
  A push and a fetch that each report 0 and then 1.
\<close>

theorem push_progress_ascending_witness:
  "fractionsInRange steadyRun \<and> fractionsAscending steadyRun \<and> succeeds steadyRun \<and>
   (\<exists>vs. progressValues (snd (performPush ''origin'' (Valid mainBranch) steadyRun)) =
           map Some vs @ [None] \<and>
         sorted vs \<and> hd vs = 0 \<and> (\<forall>v \<in> set vs. 0 \<le> v \<and> v \<le> 19 / 20) \<and>
         last vs = 19 / 20)"
proof -
  have range: "fractionsInRange steadyRun"
    by (simp add: fractionsInRange_def steadyRun_def fraction_def)
  have asc: "fractionsAscending steadyRun"
    by (simp add: fractionsAscending_def steadyRun_def fraction_def)
  have ok: "succeeds steadyRun"
    by (simp add: succeeds_def steadyRun_def)
  from push_progress_ascending [OF range asc, of "''origin''" mainBranch] ok range asc
  show ?thesis by simp
qed

text \<open>
  A push that succeeds and reports the fractions 1/2 and then 1/4: the reported values
  go down from 9/28 to 9/56, and the last value before the progress is cleared is
  19/20, not 1.
\<close>

theorem push_progress_counterexample:
  "fractionsInRange backwardsRun \<and> succeeds backwardsRun \<and> (9 / 56 :: rat) < 9 / 28 \<and>
   progressValues (snd (performPush ''origin'' (Valid mainBranch) backwardsRun)) =
     [Some 0, Some (9 / 28), Some (9 / 56), Some (9 / 10), Some (9 / 10), Some (19 / 20), None]"
  by (simp add: fractionsInRange_def succeeds_def backwardsRun_def fraction_def performPush_def
      performFailableOperation_def pushOperation_def progressValues_def Let_def
      pushWeight_value fetchWeight_value refreshStartProgress_value refreshWeight_def)

section \<open>Release of the gates\<close>

text \<open>
  C9: when the gate of \<^verbatim>\<open>withPushPull\<close> is free, the run sets the flag of the repository
  and nothing else in the cache, calls the wrapped function on that store, hands back
  what the function returned or threw, and leaves the store that the function left
  with the flag false again. When the gate is held, the run returns normally and
  leaves the store as it is, without calling the wrapped function. The same holds of
  \<^verbatim>\<open>isCommitting\<close>, which resolves with undefined when its gate is held and else with
  whether the wrapped function gave a SHA.
\<close>

theorem gates_release:
  "(\<not> isPushPullFetchInProgress (cache_get s r) \<longrightarrow>
      (\<exists>s1. withPushPull_enter r s = Some s1 \<and>
         cache_get s1 r = (cache_get s r)\<lparr>isPushPullFetchInProgress := True\<rparr> \<and>
         (\<forall>r'. r' \<noteq> r \<longrightarrow> cache_get s1 r' = cache_get s r') \<and>
         withPushPull r fn s = (fst (fn s1), withPushPull_finally r (snd (fn s1))) \<and>
         cache_get (snd (withPushPull r fn s)) r =
           (cache_get (snd (fn s1)) r)\<lparr>isPushPullFetchInProgress := False\<rparr> \<and>
         (\<forall>r'. r' \<noteq> r \<longrightarrow>
            cache_get (snd (withPushPull r fn s)) r' = cache_get (snd (fn s1)) r')) \<and>
      \<not> isPushPullFetchInProgress (cache_get (snd (withPushPull r fn s)) r)) \<and>
   (isPushPullFetchInProgress (cache_get s r) \<longrightarrow> withPushPull r fn s = (Inr (), s)) \<and>
   (\<not> isCommitting (cache_get s r) \<longrightarrow>
      (\<exists>s1. isCommitting_enter r s = Some s1 \<and>
         cache_get s1 r = (cache_get s r)\<lparr>isCommitting := True\<rparr> \<and>
         (\<forall>r'. r' \<noteq> r \<longrightarrow> cache_get s1 r' = cache_get s r') \<and>
         isCommitting_gate r commit s =
           (case fst (commit s1) of
              Inl e \<Rightarrow> Inl e
            | Inr commit_sha \<Rightarrow> Inr (Some (commit_sha \<noteq> None)),
            isCommitting_finally r (snd (commit s1))) \<and>
         cache_get (snd (isCommitting_gate r commit s)) r =
           (cache_get (snd (commit s1)) r)\<lparr>isCommitting := False\<rparr> \<and>
         (\<forall>r'. r' \<noteq> r \<longrightarrow>
            cache_get (snd (isCommitting_gate r commit s)) r' = cache_get (snd (commit s1)) r')) \<and>
      \<not> isCommitting (cache_get (snd (isCommitting_gate r commit s)) r)) \<and>
   (isCommitting (cache_get s r) \<longrightarrow> isCommitting_gate r commit s = (Inr None, s))"
proof -
  have push_free: "(\<exists>s1. withPushPull_enter r s = Some s1 \<and>
         cache_get s1 r = (cache_get s r)\<lparr>isPushPullFetchInProgress := True\<rparr> \<and>
         (\<forall>r'. r' \<noteq> r \<longrightarrow> cache_get s1 r' = cache_get s r') \<and>
         withPushPull r fn s = (fst (fn s1), withPushPull_finally r (snd (fn s1))) \<and>
         cache_get (snd (withPushPull r fn s)) r =
           (cache_get (snd (fn s1)) r)\<lparr>isPushPullFetchInProgress := False\<rparr> \<and>
         (\<forall>r'. r' \<noteq> r \<longrightarrow>
            cache_get (snd (withPushPull r fn s)) r' = cache_get (snd (fn s1)) r')) \<and>
      \<not> isPushPullFetchInProgress (cache_get (snd (withPushPull r fn s)) r)"
    if "\<not> isPushPullFetchInProgress (cache_get s r)"
    using that
    by (simp add: withPushPull_def withPushPull_enter_def withPushPull_finally_def
        split: prod.splits)
  have push_held: "withPushPull r fn s = (Inr (), s)"
    if "isPushPullFetchInProgress (cache_get s r)"
    using that by (simp add: withPushPull_def withPushPull_enter_def)
  have commit_free: "(\<exists>s1. isCommitting_enter r s = Some s1 \<and>
         cache_get s1 r = (cache_get s r)\<lparr>isCommitting := True\<rparr> \<and>
         (\<forall>r'. r' \<noteq> r \<longrightarrow> cache_get s1 r' = cache_get s r') \<and>
         isCommitting_gate r commit s =
           (case fst (commit s1) of
              Inl e \<Rightarrow> Inl e
            | Inr commit_sha \<Rightarrow> Inr (Some (commit_sha \<noteq> None)),
            isCommitting_finally r (snd (commit s1))) \<and>
         cache_get (snd (isCommitting_gate r commit s)) r =
           (cache_get (snd (commit s1)) r)\<lparr>isCommitting := False\<rparr> \<and>
         (\<forall>r'. r' \<noteq> r \<longrightarrow>
            cache_get (snd (isCommitting_gate r commit s)) r' = cache_get (snd (commit s1)) r')) \<and>
      \<not> isCommitting (cache_get (snd (isCommitting_gate r commit s)) r)"
    if "\<not> isCommitting (cache_get s r)"
    using that
    by (simp add: isCommitting_gate_def isCommitting_enter_def isCommitting_finally_def
        split: prod.splits)
  have commit_held: "isCommitting_gate r commit s = (Inr None, s)"
    if "isCommitting (cache_get s r)"
    using that by (simp add: isCommitting_gate_def isCommitting_enter_def)
  from push_free push_held commit_free commit_held show ?thesis by blast
qed

text \<open>
  A push and a commit that throw: the error comes back and the gate is free again.
  A commit that gives a SHA resolves with true. With both gates held, a push and a
  commit return at once.
\<close>

theorem gates_release_witness:
  "\<not> isPushPullFetchInProgress (cache_get initialStore 1) \<and>
   fst (withPushPull 1 failingPush initialStore) = Inl (Error ''The current branch is unborn.'') \<and>
   \<not> isPushPullFetchInProgress (cache_get (snd (withPushPull 1 failingPush initialStore)) 1) \<and>
   \<not> isCommitting (cache_get initialStore 1) \<and>
   fst (isCommitting_gate 1 failingCommit initialStore) = Inl (Error ''nothing to commit'') \<and>
   fst (isCommitting_gate 1 committing initialStore) = Inr (Some True) \<and>
   \<not> isCommitting (cache_get (snd (isCommitting_gate 1 failingCommit initialStore)) 1) \<and>
   isPushPullFetchInProgress (cache_get heldStore 1) \<and>
   withPushPull 1 failingPush heldStore = (Inr (), heldStore) \<and>
   isCommitting (cache_get heldStore 1) \<and>
   isCommitting_gate 1 failingCommit heldStore = (Inr None, heldStore)"
proof -
  have free: "\<not> isPushPullFetchInProgress (cache_get initialStore 1)"
      "\<not> isCommitting (cache_get initialStore 1)"
    by (simp_all add: initialRepositoryState_def)
  have held: "isPushPullFetchInProgress (cache_get heldStore 1)"
      "isCommitting (cache_get heldStore 1)"
    by (simp_all add: heldStore_def)
  have thrown: "fst (failingPush s1) = Inl (Error ''The current branch is unborn.'')"
      "fst (failingCommit s1) = Inl (Error ''nothing to commit'')"
      "fst (committing s1) = Inr (Some ''c3'')" for s1
    by (simp_all add: failingPush_def failingCommit_def committing_def)
  from gates_release [of initialStore 1 failingPush failingCommit]
    gates_release [of initialStore 1 failingPush committing]
    gates_release [of heldStore 1 failingPush failingCommit] free held thrown
  show ?thesis by auto
qed

section \<open>Network operations that overlap\<close>

lemma cache_get_showPopup [simp]: "cache_get (showPopup popup s) r = cache_get s r"
  by (simp add: showPopup_def closePopup_def closeFoldout_def cache_get_def emitUpdate_def
      emitUpdateNow_def split: option.splits)













section \<open>Merge previews that overlap\<close>

lemma current_emitUpdate [simp]:
  "currentMergeTreePromise (emitUpdate s) = currentMergeTreePromise s"
  by (simp add: emitUpdate_def emitUpdateNow_def)

lemma current_updateCompareState [simp]:
  "currentMergeTreePromise (updateCompareState r f s) = currentMergeTreePromise s"
  by (simp add: updateCompareState_def cache_update_def)

lemma cache_get_current [simp]:
  "cache_get (s\<lparr>currentMergeTreePromise := p\<rparr>) r = cache_get s r"
  by (simp add: cache_get_def)

lemma pending_unique:
  assumes "previewConsistent sys" and "run \<in> set (running sys)"
  shows "running sys = [run]" and "awaitingCleanup sys = []"
    and "currentMergeTreePromise (cmp_store sys) = Some (run_promise run)"
    and "mergeStatus (compareState (cache_get (cmp_store sys) (run_repository run))) =
      Some Loading"
  using assms
  by (cases "running sys"; cases "awaitingCleanup sys"; auto simp add: previewConsistent_def)+

lemma updateCompareToBranch_consistent:
  assumes "previewConsistent sys"
  shows "previewConsistent (snd (updateCompareToBranch now r action compare t sys))"
proof (cases compare)
  case None
  with assms show ?thesis by (simp add: updateCompareToBranch_def)
next
  case (Some c)
  show ?thesis
  proof (cases "currentMergeTreePromise (cmp_store sys)")
    case pending: (Some p)
    with Some assms show ?thesis
      by (simp add: updateCompareToBranch_def Let_def previewConsistent_def)
  next
    case None
    with assms have empty: "running sys = []" "awaitingCleanup sys = []"
      by (auto simp add: previewConsistent_def intro: ccontr)
    with None Some assms show ?thesis
      by (simp add: updateCompareToBranch_def Let_def previewConsistent_def split: Tip.splits)
  qed
qed

lemma mergeTreeSettled_consistent:
  assumes "previewConsistent sys"
  shows "previewConsistent (mergeTreeSettled now p result sys)"
proof (cases "find (\<lambda>run. run_promise run = p) (running sys)")
  case None
  with assms show ?thesis by (simp add: mergeTreeSettled_def)
next
  case (Some run)
  then have mem: "run \<in> set (running sys)" and pr: "run_promise run = p"
    by (auto simp add: find_Some_iff)
  note one = pending_unique [OF assms mem]
  show ?thesis
  proof (cases "promiseWithMinimumTimeout_maySettle (run_started run) 500 now")
    case False
    with Some assms show ?thesis by (simp add: mergeTreeSettled_def)
  next
    case True
    with Some assms one pr show ?thesis
      by (simp add: mergeTreeSettled_def Let_def previewConsistent_def)
  qed
qed

lemma cleanup_consistent:
  assumes "previewConsistent sys"
  shows "previewConsistent (cleanup p sys)"
proof (cases "p \<in> set (awaitingCleanup sys)")
  case False
  with assms show ?thesis by (simp add: cleanup_def)
next
  case True
  with assms have one: "running sys = []" "awaitingCleanup sys = [p]"
    by (cases "running sys"; cases "awaitingCleanup sys"; auto simp add: previewConsistent_def)+
  with True assms show ?thesis
    by (simp add: cleanup_def previewConsistent_def)
qed

lemma compareStep_consistent:
  "previewConsistent sys \<Longrightarrow> previewConsistent (compareStep sys ev)"
  by (cases ev)
     (simp_all add: updateCompareToBranch_consistent mergeTreeSettled_consistent
        cleanup_consistent)

lemma compareRun_consistent:
  "previewConsistent sys \<Longrightarrow> previewConsistent (compareRun sys evs)"
  unfolding compareRun_def
  by (induction evs arbitrary: sys) (simp_all add: compareStep_consistent)

lemma initial_previewConsistent: "previewConsistent initialCompareSystem"
  by (simp add: previewConsistent_def initialCompareSystem_def)

text \<open>
  C8: in every state reached from a consistent one, at most one merge-tree
  computation is in flight, for a repository and over all of them. While one is in
  flight, no call of \<^verbatim>\<open>updateCompareToBranch\<close> starts another: a call whose comparison
  has loaded returns the promise of the computation in flight, and a call whose
  comparison came back null returns undefined. While the computation is in flight the
  merge status of its repository is loading; its promise settling earlier than
  500 ms after the start changes nothing, and settling from then on writes the
  result as the merge status and ends the computation.
\<close>

theorem one_merge_preview_in_flight:
  assumes "previewConsistent sys"
  shows "length (runningFor r (compareRun sys evs)) \<le> 1 \<and>
         length (running (compareRun sys evs)) \<le> 1 \<and>
         (\<forall>run \<in> set (running (compareRun sys evs)).
            running (snd (updateCompareToBranch now r' action compare t (compareRun sys evs))) =
              running (compareRun sys evs) \<and>
            fst (updateCompareToBranch now r' action compare t (compareRun sys evs)) =
              (if compare = None then None else Some (run_promise run)) \<and>
            mergeStatus (compareState
              (cache_get (cmp_store (compareRun sys evs)) (run_repository run))) = Some Loading \<and>
            (now < run_started run + 500 \<longrightarrow>
               mergeTreeSettled now (run_promise run) result (compareRun sys evs) =
                 compareRun sys evs) \<and>
            (run_started run + 500 \<le> now \<longrightarrow>
               mergeStatus (compareState
                 (cache_get (cmp_store
                    (mergeTreeSettled now (run_promise run) result (compareRun sys evs)))
                    (run_repository run))) = settledStatus result \<and>
               running (mergeTreeSettled now (run_promise run) result (compareRun sys evs)) = []))"
proof -
  let ?sys = "compareRun sys evs"
  from assms have c: "previewConsistent ?sys" by (rule compareRun_consistent)
  then have all: "length (running ?sys) \<le> 1"
    by (simp add: previewConsistent_def)
  have "length (runningFor r ?sys) \<le> length (running ?sys)"
    by (simp add: runningFor_def)
  with all have one: "length (runningFor r ?sys) \<le> 1" by simp
  have pending: "running (snd (updateCompareToBranch now r' action compare t ?sys)) =
        running ?sys \<and>
      fst (updateCompareToBranch now r' action compare t ?sys) =
        (if compare = None then None else Some (run_promise run)) \<and>
      mergeStatus (compareState (cache_get (cmp_store ?sys) (run_repository run))) =
        Some Loading \<and>
      (now < run_started run + 500 \<longrightarrow>
         mergeTreeSettled now (run_promise run) result ?sys = ?sys) \<and>
      (run_started run + 500 \<le> now \<longrightarrow>
         mergeStatus (compareState
           (cache_get (cmp_store (mergeTreeSettled now (run_promise run) result ?sys))
              (run_repository run))) = settledStatus result \<and>
         running (mergeTreeSettled now (run_promise run) result ?sys) = [])"
    if mem: "run \<in> set (running ?sys)" for run
  proof -
    note u = pending_unique [OF c mem]
    have again: "running (snd (updateCompareToBranch now r' action compare t ?sys)) =
          running ?sys \<and>
        fst (updateCompareToBranch now r' action compare t ?sys) =
          (if compare = None then None else Some (run_promise run))"
      using u(3) by (cases compare) (simp_all add: updateCompareToBranch_def Let_def)
    have found: "find (\<lambda>x. run_promise x = run_promise run) (running ?sys) = Some run"
      using u(1) by simp
    have early: "mergeTreeSettled now (run_promise run) result ?sys = ?sys"
      if "now < run_started run + 500"
      using that found
      by (simp add: mergeTreeSettled_def promiseWithMinimumTimeout_maySettle_def)
    have late: "mergeStatus (compareState
          (cache_get (cmp_store (mergeTreeSettled now (run_promise run) result ?sys))
             (run_repository run))) = settledStatus result \<and>
        running (mergeTreeSettled now (run_promise run) result ?sys) = []"
      if "run_started run + 500 \<le> now"
      using that found u(1)
      by (simp add: mergeTreeSettled_def promiseWithMinimumTimeout_maySettle_def Let_def)
    from again u(4) early late show ?thesis by blast
  qed
  from one all pending show ?thesis by blast
qed

text \<open>
  A comparison starts a merge-tree computation at time 0. A second comparison at time
  100 returns the same promise. The promise settling at time 100 changes nothing; at
  time 600 the clean result becomes the merge status.
\<close>

lemma first_running:
  "running (compareRun initialCompareSystem [firstComparison]) =
     [\<lparr>run_promise = 0, run_repository = 1, run_started = 0\<rparr>]"
  by (simp add: compareRun_def firstComparison_def updateCompareToBranch_def Let_def
      initialCompareSystem_def behindTwo_def initialStore_def emitUpdate_def
      updateCompareState_def cache_update_def)

theorem one_merge_preview_in_flight_witness:
  "previewConsistent initialCompareSystem \<and>
   running (compareRun initialCompareSystem [firstComparison]) =
     [\<lparr>run_promise = 0, run_repository = 1, run_started = 0\<rparr>] \<and>
   fst (updateCompareToBranch 100 1 toMain (Some behindTwo) (Valid featureBranch)
          (compareRun initialCompareSystem [firstComparison])) = Some 0 \<and>
   running (snd (updateCompareToBranch 100 1 toMain (Some behindTwo) (Valid featureBranch)
          (compareRun initialCompareSystem [firstComparison]))) =
     running (compareRun initialCompareSystem [firstComparison]) \<and>
   mergeStatus (compareState
     (cache_get (cmp_store (compareRun initialCompareSystem [firstComparison])) 1)) =
     Some Loading \<and>
   mergeTreeSettled 100 0 (Inr (Some Clean)) (compareRun initialCompareSystem [firstComparison]) =
     compareRun initialCompareSystem [firstComparison] \<and>
   mergeStatus (compareState
     (cache_get (cmp_store
        (mergeTreeSettled 600 0 (Inr (Some Clean))
           (compareRun initialCompareSystem [firstComparison]))) 1)) = Some Clean"
proof -
  let ?run = "\<lparr>run_promise = 0, run_repository = 1, run_started = 0\<rparr>"
  have mem: "?run \<in> set (running (compareRun initialCompareSystem [firstComparison]))"
    unfolding first_running by simp
  have status: "settledStatus (Inr (Some Clean)) = Some Clean"
    by (simp add: settledStatus_def)
  from one_merge_preview_in_flight [OF initial_previewConsistent,
      of 1 "[firstComparison]" 100 1 toMain "Some behindTwo" "Valid featureBranch"
         "Inr (Some Clean)"] mem
  have early: "fst (updateCompareToBranch 100 1 toMain (Some behindTwo) (Valid featureBranch)
          (compareRun initialCompareSystem [firstComparison])) = Some 0 \<and>
      running (snd (updateCompareToBranch 100 1 toMain (Some behindTwo) (Valid featureBranch)
          (compareRun initialCompareSystem [firstComparison]))) =
        running (compareRun initialCompareSystem [firstComparison]) \<and>
      mergeStatus (compareState
        (cache_get (cmp_store (compareRun initialCompareSystem [firstComparison])) 1)) =
        Some Loading \<and>
      mergeTreeSettled 100 0 (Inr (Some Clean))
        (compareRun initialCompareSystem [firstComparison]) =
        compareRun initialCompareSystem [firstComparison]"
    by fastforce
  from one_merge_preview_in_flight [OF initial_previewConsistent,
      of 1 "[firstComparison]" 600 1 toMain "Some behindTwo" "Valid featureBranch"
         "Inr (Some Clean)"] mem status
  have late: "mergeStatus (compareState
     (cache_get (cmp_store
        (mergeTreeSettled 600 0 (Inr (Some Clean))
           (compareRun initialCompareSystem [firstComparison]))) 1)) = Some Clean"
    by fastforce
  from initial_previewConsistent first_running early late show ?thesis by blast
qed

text \<open>
  While the computation started at time 0 is in flight, a comparison whose commits
  came back null returns undefined, not the promise of that computation.
\<close>

theorem updateCompareToBranch_counterexample:
  "running (compareRun initialCompareSystem [firstComparison]) =
     [\<lparr>run_promise = 0, run_repository = 1, run_started = 0\<rparr>] \<and>
   currentMergeTreePromise (cmp_store (compareRun initialCompareSystem [firstComparison])) =
     Some 0 \<and>
   fst (updateCompareToBranch 100 1 toMain None (Valid featureBranch)
          (compareRun initialCompareSystem [firstComparison])) = None"
  by (simp add: compareRun_def firstComparison_def updateCompareToBranch_def Let_def
      initialCompareSystem_def behindTwo_def initialStore_def emitUpdate_def
      updateCompareState_def cache_update_def)

end
